theory Spec2Isabelle
  imports Complex_Main
begin

section \<open>Particle swarm optimisation: the optimiser of pso\_impl.hpp and its velocity policy\<close>

text \<open>
  The development embeds \<^verbatim>\<open>PSOType<VelocityVectorType>::Optimize\<close> (pso\_impl.hpp) and
  \<^verbatim>\<open>InertiaWeight::Update\<close> (inertia\_weight.hpp, in the version of namespace ens and in
  the older version of namespace mlpack).

  Conventions of the embedding:
  \<^item> a \<^verbatim>\<open>double\<close> is a \<^typ>\<open>real\<close>: arithmetic is exact and every value is finite and
    ordered (no rounding, no NaN, no infinity);
  \<^item> a \<^verbatim>\<open>size_t\<close> is a \<^typ>\<open>nat\<close>: the loop counters only count up to a bound that is
    itself a \<^verbatim>\<open>size_t\<close>, so none wraps;
  \<^item> the objective is a function from positions to values: \<^verbatim>\<open>Evaluate\<close> returns the same
    value at the same position and has no other effect;
  \<^item> the uniform random source is the sequence of its draws after seeding, a function
    from the index of a draw to its value, and the number of draws taken so far;
  \<^item> an access that has no defined result (a slice or an element past the end, the read
    of a local that was never assigned, the sum of two cubes of different shapes) is
    recorded in a list of faults, and the value read is taken from a parameter about
    which nothing is assumed. Armadillo never checks the index of \<^verbatim>\<open>operator[]\<close>, so a
    call goes on after such a read; it checks the index of a slice and the shapes of a
    sum only when its bounds checks are compiled in, and then raises an exception. A
    call of \<open>Optimize\<close> with at least one particle and one of the two policies below has
    faults of the first kind only (\<open>Optimize_faults\<close>).
\<close>

subsection \<open>Faults and the values of undefined reads\<close>

datatype fault =
    SliceOutOfBounds nat
  | ElemOutOfBounds nat
  | UninitializedRead
  | SizeMismatch

text \<open>
  What an undefined read yields: the storage seen by a slice access past the last slice,
  the value seen by \<^verbatim>\<open>operator[]\<close> past the last element (Armadillo does not check that
  index), the content of a \<^verbatim>\<open>double\<close> local that was declared without initialiser, and
  the content of storage that \<^verbatim>\<open>set_size\<close> has allocated and nobody has written.
\<close>

record garbage =
  past_slice :: "nat \<Rightarrow> real list"
  past_end :: "real list \<Rightarrow> nat \<Rightarrow> real"
  uninit_double :: real
  stale :: "real list"

subsection \<open>Dense matrices and cubes\<close>

text \<open>
  \<^verbatim>\<open>arma::mat\<close>: the shape and the elements in column-major order. \<^verbatim>\<open>arma::cube\<close>: the shape
  of one slice, and the storage of each slice in order.
\<close>

record mat =
  n_rows :: nat
  n_cols :: nat
  mem :: "real list"

record cube =
  c_rows :: nat
  c_cols :: nat
  slices :: "real list list"

definition n_elem :: "mat \<Rightarrow> nat" where
  "n_elem m = n_rows m * n_cols m"

definition n_slices :: "cube \<Rightarrow> nat" where
  "n_slices c = length (slices c)"

text \<open>The storage has the length that the shape gives, as Armadillo keeps it.\<close>

definition wf_mat :: "mat \<Rightarrow> bool" where
  "wf_mat m = (length (mem m) = n_rows m * n_cols m)"

definition wf_cube :: "cube \<Rightarrow> bool" where
  "wf_cube c = (\<forall>xs \<in> set (slices c). length xs = c_rows c * c_cols c)"

text \<open>\<^verbatim>\<open>m[i]\<close>: the element at linear index \<open>i\<close>, not bounds-checked by Armadillo.\<close>

definition elem :: "garbage \<Rightarrow> mat \<Rightarrow> nat \<Rightarrow> real \<times> fault list" where
  "elem g m i =
     (if i < n_elem m then (mem m ! i, [])
      else (past_end g (mem m) i, [ElemOutOfBounds i]))"

text \<open>\<^verbatim>\<open>c.slice(i)\<close> read as a matrix.\<close>

definition slice :: "garbage \<Rightarrow> cube \<Rightarrow> nat \<Rightarrow> mat \<times> fault list" where
  "slice g c i =
     (if i < n_slices c
      then (\<lparr>n_rows = c_rows c, n_cols = c_cols c, mem = slices c ! i\<rparr>, [])
      else (\<lparr>n_rows = c_rows c, n_cols = c_cols c, mem = past_slice g i\<rparr>,
            [SliceOutOfBounds i]))"

text \<open>\<^verbatim>\<open>c.slice(i) = m\<close>.\<close>

definition set_slice :: "cube \<Rightarrow> nat \<Rightarrow> mat \<Rightarrow> cube \<times> fault list" where
  "set_slice c i m =
     (if i < n_slices c then (c\<lparr>slices := (slices c)[i := mem m]\<rparr>, [])
      else (c, [SliceOutOfBounds i]))"

text \<open>\<^verbatim>\<open>c.set_size(r, k, n)\<close>: \<open>n\<close> slices of \<open>r\<close> by \<open>k\<close>, their content not initialised.\<close>

definition set_size :: "garbage \<Rightarrow> nat \<Rightarrow> nat \<Rightarrow> nat \<Rightarrow> cube" where
  "set_size g r k n = \<lparr>c_rows = r, c_cols = k, slices = replicate n (stale g)\<rparr>"

text \<open>
  The elementwise operators of Armadillo that the sources use: scalar times matrix,
  scalar minus matrix, \<^verbatim>\<open>%\<close> (the Schur product), matrix plus matrix, cube plus cube.
  The two operands of a binary operator have equal shapes in every use the sources make
  of it on matrices, and storage of equal lengths in every state of a call that starts
  from a well-formed matrix (\<open>swarm_at_stored\<close>); for cubes a difference of shape is a
  fault.
\<close>

definition scalar_times :: "real \<Rightarrow> mat \<Rightarrow> mat" where
  "scalar_times a m = m\<lparr>mem := map (\<lambda>x. a * x) (mem m)\<rparr>"

definition scalar_minus :: "real \<Rightarrow> mat \<Rightarrow> mat" where
  "scalar_minus a m = m\<lparr>mem := map (\<lambda>x. a - x) (mem m)\<rparr>"

definition schur :: "mat \<Rightarrow> mat \<Rightarrow> mat" where
  "schur a b = a\<lparr>mem := map2 (\<lambda>x y. x * y) (mem a) (mem b)\<rparr>"

definition mat_plus :: "mat \<Rightarrow> mat \<Rightarrow> mat" where
  "mat_plus a b = a\<lparr>mem := map2 (\<lambda>x y. x + y) (mem a) (mem b)\<rparr>"

definition mat_minus :: "mat \<Rightarrow> mat \<Rightarrow> mat" where
  "mat_minus a b = a\<lparr>mem := map2 (\<lambda>x y. x - y) (mem a) (mem b)\<rparr>"

definition same_shape :: "cube \<Rightarrow> cube \<Rightarrow> bool" where
  "same_shape a b =
     (c_rows a = c_rows b \<and> c_cols a = c_cols b \<and> n_slices a = n_slices b)"

definition cube_plus :: "cube \<Rightarrow> cube \<Rightarrow> cube \<times> fault list" where
  "cube_plus a b =
     (if same_shape a b
      then (a\<lparr>slices := map2 (map2 (\<lambda>x y. x + y)) (slices a) (slices b)\<rparr>, [])
      else (a, [SizeMismatch]))"

subsection \<open>The random source\<close>

type_synonym rng = "nat \<Rightarrow> real"

text \<open>
  \<^verbatim>\<open>arma::mat r(n_rows, n_cols, arma::fill::randu)\<close>: the next \<open>n_rows * n_cols\<close> draws, given
  the number \<open>d\<close> of draws already taken; the new count is returned with the matrix.
\<close>

definition randu :: "rng \<Rightarrow> nat \<Rightarrow> nat \<Rightarrow> nat \<Rightarrow> mat \<times> nat" where
  "randu rnd d r k =
     (\<lparr>n_rows = r, n_cols = k, mem = map rnd [d ..< d + r * k]\<rparr>, d + r * k)"

subsection \<open>InertiaWeight::Update, namespace ens\<close>

text \<open>
  The right-hand side of the assignment in the loop over the particles, for particle
  \<open>i\<close>: it reads slice \<open>i\<close> of the velocities, element \<open>i\<close> of the best particle position,
  slice \<open>i\<close> of the positions (twice) and element \<open>i\<close> of the best swarm position. A scalar
  minus a matrix is taken elementwise. \<^verbatim>\<open>a * r1 % m\<close> groups as \<^verbatim>\<open>(a * r1) % m\<close>.
\<close>

definition Update_rhs ::
  "garbage \<Rightarrow> mat \<Rightarrow> mat \<Rightarrow> cube \<Rightarrow> cube \<Rightarrow> mat \<Rightarrow> mat \<Rightarrow> real \<Rightarrow> real \<Rightarrow> real \<Rightarrow>
   nat \<Rightarrow> mat \<times> fault list" where
  "Update_rhs g r1 r2 particlePosition particleVelocity bestParticlePosition
     bestSwarmPosition interiaWeight cognitiveAcceleration socialAcceleration i =
     (let (v, e1) = slice g particleVelocity i;
          (pb, e2) = elem g bestParticlePosition i;
          (x, e3) = slice g particlePosition i;
          (gb, e4) = elem g bestSwarmPosition i
      in (mat_plus
            (mat_plus (scalar_times interiaWeight v)
               (schur (scalar_times cognitiveAcceleration r1) (scalar_minus pb x)))
            (schur (scalar_times socialAcceleration r2) (scalar_minus gb x)),
          e1 @ e2 @ e3 @ e4 @ e3))"

text \<open>One round of the loop: the right-hand side is assigned to slice \<open>i\<close> of the velocities.\<close>

definition Update_particle ::
  "garbage \<Rightarrow> mat \<Rightarrow> mat \<Rightarrow> cube \<Rightarrow> mat \<Rightarrow> mat \<Rightarrow> real \<Rightarrow> real \<Rightarrow> real \<Rightarrow>
   nat \<Rightarrow> cube \<times> fault list \<Rightarrow> cube \<times> fault list" where
  "Update_particle g r1 r2 particlePosition bestParticlePosition bestSwarmPosition
     interiaWeight cognitiveAcceleration socialAcceleration i acc =
     (let (particleVelocity, e) = acc;
          (rhs, e1) = Update_rhs g r1 r2 particlePosition particleVelocity
                        bestParticlePosition bestSwarmPosition interiaWeight
                        cognitiveAcceleration socialAcceleration i;
          (particleVelocity', e2) = set_slice particleVelocity i rhs
      in (particleVelocity', e @ e1 @ e2))"

text \<open>
  The policy as \<open>Optimize\<close> sees it: from the random source with its count of draws, the
  positions, the velocities, the two best positions, the three coefficients and the
  number of particles, to the new velocities, the new count of draws and the faults.
  \<open>Update\<close> receives the number of particles as a \<^verbatim>\<open>double\<close> and compares the loop
  counter with it; for counts below \<open>2 ^ 53\<close> that is the comparison of the naturals.
\<close>

type_synonym velocity_policy =
  "garbage \<Rightarrow> rng \<Rightarrow> nat \<Rightarrow> cube \<Rightarrow> cube \<Rightarrow> mat \<Rightarrow> mat \<Rightarrow> real \<Rightarrow> real \<Rightarrow> real \<Rightarrow> nat
   \<Rightarrow> cube \<times> nat \<times> fault list"

definition InertiaWeight_Update :: velocity_policy where
  "InertiaWeight_Update g rnd d particlePosition particleVelocity bestParticlePosition
     bestSwarmPosition interiaWeight cognitiveAcceleration socialAcceleration dimension =
     (let (r1, d1) = randu rnd d (c_rows particlePosition) (c_cols particlePosition);
          (r2, d2) = randu rnd d1 (c_rows particlePosition) (c_cols particlePosition);
          (particleVelocity', e) =
             fold (Update_particle g r1 r2 particlePosition bestParticlePosition
                     bestSwarmPosition interiaWeight cognitiveAcceleration
                     socialAcceleration)
               [0 ..< dimension] (particleVelocity, [])
      in (particleVelocity', d2, e))"

subsection \<open>InertiaWeight::Update, namespace mlpack\<close>

text \<open>
  The older version loops over the particles, the rows and the columns, and draws two
  uniform numbers with \<^verbatim>\<open>math::Random()\<close> for every assignment; they are taken from the
  same sequence of draws, in the order in which the calls are written. The subscript
  \<^verbatim>\<open>[j, k]\<close> is the comma operator inside \<^verbatim>\<open>operator[]\<close>: the element at linear index \<open>k\<close>.

  \<^verbatim>\<open>c.slice(i)[k] = y\<close>:
\<close>

definition set_elem :: "cube \<Rightarrow> nat \<Rightarrow> nat \<Rightarrow> real \<Rightarrow> cube \<times> fault list" where
  "set_elem c i k y =
     (if i < n_slices c
      then (if k < c_rows c * c_cols c
            then (c\<lparr>slices := (slices c)[i := (slices c ! i)[k := y]]\<rparr>, [])
            else (c, [ElemOutOfBounds k]))
      else (c, [SliceOutOfBounds i]))"

text \<open>
  The assignment in the innermost loop, for particle \<open>i\<close> and column \<open>k\<close>; the row \<open>j\<close> does
  not occur in it.
\<close>

definition Update_element ::
  "garbage \<Rightarrow> rng \<Rightarrow> cube \<Rightarrow> mat \<Rightarrow> mat \<Rightarrow> real \<Rightarrow> real \<Rightarrow> real \<Rightarrow> nat \<Rightarrow> nat \<Rightarrow>
   cube \<times> nat \<times> fault list \<Rightarrow> cube \<times> nat \<times> fault list" where
  "Update_element g rnd particlePosition bestParticlePosition bestSwarmPosition
     interiaWeight cognitiveAcceleration socialAcceleration i k acc =
     (let (particleVelocity, d, e) = acc;
          (vi, e1) = slice g particleVelocity i;
          (v, e2) = elem g vi k;
          (pb, e3) = elem g bestParticlePosition i;
          (xi, e4) = slice g particlePosition i;
          (x, e5) = elem g xi k;
          (gb, e6) = elem g bestSwarmPosition i;
          rhs = interiaWeight * v + cognitiveAcceleration * rnd d * (pb - x) +
                socialAcceleration * rnd (Suc d) * (gb - x);
          (particleVelocity', e7) = set_elem particleVelocity i k rhs
      in (particleVelocity', d + 2, e @ e1 @ e2 @ e3 @ e4 @ e5 @ e6 @ e4 @ e5 @ e7))"

text \<open>
  The loop over the columns, for particle \<open>i\<close> and row \<open>j\<close>, and the loop over the rows, for
  particle \<open>i\<close>. Their bounds are read from slice 0 of the positions; the read is
  recorded once for each loop.
\<close>

definition Update_row ::
  "garbage \<Rightarrow> rng \<Rightarrow> cube \<Rightarrow> mat \<Rightarrow> mat \<Rightarrow> real \<Rightarrow> real \<Rightarrow> real \<Rightarrow> nat \<Rightarrow> nat \<Rightarrow>
   cube \<times> nat \<times> fault list \<Rightarrow> cube \<times> nat \<times> fault list" where
  "Update_row g rnd particlePosition bestParticlePosition bestSwarmPosition
     interiaWeight cognitiveAcceleration socialAcceleration i j acc =
     (let (particleVelocity, d, e) = acc;
          (x0, e0) = slice g particlePosition 0
      in fold (Update_element g rnd particlePosition bestParticlePosition bestSwarmPosition
                 interiaWeight cognitiveAcceleration socialAcceleration i)
           [0 ..< n_cols x0] (particleVelocity, d, e @ e0))"

definition Update_particle_mlpack ::
  "garbage \<Rightarrow> rng \<Rightarrow> cube \<Rightarrow> mat \<Rightarrow> mat \<Rightarrow> real \<Rightarrow> real \<Rightarrow> real \<Rightarrow> nat \<Rightarrow>
   cube \<times> nat \<times> fault list \<Rightarrow> cube \<times> nat \<times> fault list" where
  "Update_particle_mlpack g rnd particlePosition bestParticlePosition bestSwarmPosition
     interiaWeight cognitiveAcceleration socialAcceleration i acc =
     (let (particleVelocity, d, e) = acc;
          (x0, e0) = slice g particlePosition 0
      in fold (Update_row g rnd particlePosition bestParticlePosition bestSwarmPosition
                 interiaWeight cognitiveAcceleration socialAcceleration i)
           [0 ..< n_rows x0] (particleVelocity, d, e @ e0))"

definition InertiaWeight_Update_mlpack :: velocity_policy where
  "InertiaWeight_Update_mlpack g rnd d particlePosition particleVelocity
     bestParticlePosition bestSwarmPosition interiaWeight cognitiveAcceleration
     socialAcceleration n =
     fold (Update_particle_mlpack g rnd particlePosition bestParticlePosition
             bestSwarmPosition interiaWeight cognitiveAcceleration socialAcceleration)
       [0 ..< n] (particleVelocity, d, [])"

subsection \<open>PSOType: configuration and state of one call of Optimize\<close>

text \<open>
  The data members that the constructor stores. The velocity policy, the template
  parameter \<^verbatim>\<open>VelocityVectorType\<close>, is passed to \<open>Optimize\<close> as a function.
\<close>

record PSOType =
  dimension :: nat
  interiaWeight :: real
  cognitiveAcceleration :: real
  socialAcceleration :: real
  maxIterations :: nat
  tolerance :: real

definition DBL_MAX :: real where
  "DBL_MAX = (2 - 1 / 2 ^ 52) * 2 ^ 1023"

text \<open>
  Everything \<open>Optimize\<close> reads and writes: the argument \<open>iterate\<close>, which the caller passes
  by reference, the four members that hold the swarm, the three locals, and the number
  of draws taken from the random source. \<open>currentObjective\<close> is declared without an
  initialiser: \<open>None\<close> until the first assignment. Two history variables serve the
  statements only: the objective values in the order of their evaluation, and the
  faults.
\<close>

record pso_state =
  iterate :: mat
  particlePosition :: cube
  particleVelocity :: cube
  bestParticlePosition :: mat
  bestSwarmPosition :: mat
  currentObjective :: "real option"
  lastObjectiveIndividual :: real
  lastObjectiveGlobal :: real
  drawn :: nat
  evaluated :: "real list"
  faults :: "fault list"

text \<open>Lines 47 to 55: both cubes are sized, and every slice is assigned \<open>iterate\<close>.\<close>

definition init_particle :: "mat \<Rightarrow> nat \<Rightarrow> cube \<times> cube \<times> fault list \<Rightarrow> cube \<times> cube \<times> fault list" where
  "init_particle x i acc =
     (let (p, v, e) = acc;
          (p', e1) = set_slice p i x;
          (v', e2) = set_slice v i x
      in (p', v', e @ e1 @ e2))"

text \<open>
  Lines 45 to 65. Seeding the random source starts a new sequence of draws: the count is
  0. Both best positions are read from slice 0 of the positions.
\<close>

definition initial_state :: "garbage \<Rightarrow> PSOType \<Rightarrow> mat \<Rightarrow> pso_state" where
  "initial_state g cfg x =
     (let p0 = set_size g (n_rows x) (n_cols x) (dimension cfg);
          v0 = set_size g (n_rows x) (n_cols x) (dimension cfg);
          (p, v, e) = fold (init_particle x) [0 ..< dimension cfg] (p0, v0, []);
          (bp, e1) = slice g p 0;
          (bs, e2) = slice g p 0
      in \<lparr>iterate = x, particlePosition = p, particleVelocity = v,
          bestParticlePosition = bp, bestSwarmPosition = bs,
          currentObjective = None, lastObjectiveIndividual = DBL_MAX,
          lastObjectiveGlobal = DBL_MAX, drawn = 0, evaluated = [],
          faults = e @ e1 @ e2\<rparr>)"

text \<open>Lines 72 to 80: the body of the loop over the particles, for particle \<open>k\<close>.\<close>

definition evaluate_particle :: "garbage \<Rightarrow> (mat \<Rightarrow> real) \<Rightarrow> nat \<Rightarrow> pso_state \<Rightarrow> pso_state" where
  "evaluate_particle g f k s =
     (let (x, e) = slice g (particlePosition s) k;
          y = f x;
          s1 = s\<lparr>currentObjective := Some y, evaluated := evaluated s @ [y],
                 faults := faults s @ e\<rparr>
      in if y < lastObjectiveIndividual s1
         then s1\<lparr>bestParticlePosition := x, lastObjectiveIndividual := y\<rparr>
         else s1)"

text \<open>Lines 70 to 81.\<close>

definition sweep :: "garbage \<Rightarrow> PSOType \<Rightarrow> (mat \<Rightarrow> real) \<Rightarrow> pso_state \<Rightarrow> pso_state" where
  "sweep g cfg f s = fold (evaluate_particle g f) [0 ..< dimension cfg] s"

text \<open>Lines 84 to 88.\<close>

definition global_best :: "pso_state \<Rightarrow> pso_state" where
  "global_best s =
     (if lastObjectiveIndividual s < lastObjectiveGlobal s
      then s\<lparr>bestSwarmPosition := bestParticlePosition s,
              lastObjectiveGlobal := lastObjectiveIndividual s\<rparr>
      else s)"

text \<open>Lines 91 to 93.\<close>

definition update_velocity ::
  "velocity_policy \<Rightarrow> garbage \<Rightarrow> PSOType \<Rightarrow> rng \<Rightarrow> pso_state \<Rightarrow> pso_state" where
  "update_velocity upd g cfg rnd s =
     (let (v, d, e) = upd g rnd (drawn s) (particlePosition s) (particleVelocity s)
                        (bestParticlePosition s) (bestSwarmPosition s) (interiaWeight cfg)
                        (cognitiveAcceleration cfg) (socialAcceleration cfg) (dimension cfg)
      in s\<lparr>particleVelocity := v, drawn := d, faults := faults s @ e\<rparr>)"

text \<open>Line 96.\<close>

definition update_position :: "pso_state \<Rightarrow> pso_state" where
  "update_position s =
     (let (p, e) = cube_plus (particlePosition s) (particleVelocity s)
      in s\<lparr>particlePosition := p, faults := faults s @ e\<rparr>)"

text \<open>
  Line 99 reads \<open>currentObjective\<close>: the value of the last assignment, or a fault and an
  arbitrary value when nothing was assigned.
\<close>

definition read_objective :: "garbage \<Rightarrow> pso_state \<Rightarrow> real \<times> fault list" where
  "read_objective g s =
     (case currentObjective s of
        Some y \<Rightarrow> (y, [])
      | None \<Rightarrow> (uninit_double g, [UninitializedRead]))"

text \<open>
  Lines 70 to 99 up to the comparison: one round of the outer loop, from the state at
  its start to the state in which \<open>currentObjective\<close> is compared with the tolerance.
\<close>

definition iteration ::
  "velocity_policy \<Rightarrow> garbage \<Rightarrow> PSOType \<Rightarrow> (mat \<Rightarrow> real) \<Rightarrow> rng \<Rightarrow> pso_state \<Rightarrow> pso_state" where
  "iteration upd g cfg f rnd s =
     (let s1 = sweep g cfg f s;
          s2 = global_best s1;
          s3 = update_velocity upd g cfg rnd s2;
          s4 = update_position s3
      in s4\<lparr>faults := faults s4 @ snd (read_objective g s4)\<rparr>)"

text \<open>
  What a call returns: the value, the number of rounds of the outer loop that were
  started, and the state at the return (in it, the argument \<open>iterate\<close> as the caller
  finds it).
\<close>

record outcome =
  returned :: real
  iterations :: nat
  final :: pso_state

text \<open>Lines 68 to 106, with the loop variable \<open>i\<close>.\<close>

function Optimize_loop ::
  "velocity_policy \<Rightarrow> garbage \<Rightarrow> PSOType \<Rightarrow> (mat \<Rightarrow> real) \<Rightarrow> rng \<Rightarrow> nat \<Rightarrow> pso_state
   \<Rightarrow> outcome" where
  "Optimize_loop upd g cfg f rnd i s =
     (if i < maxIterations cfg
      then (if fst (read_objective g (iteration upd g cfg f rnd s)) < tolerance cfg
            then \<lparr>returned = fst (read_objective g (iteration upd g cfg f rnd s)),
                  iterations = Suc i, final = iteration upd g cfg f rnd s\<rparr>
            else Optimize_loop upd g cfg f rnd (Suc i) (iteration upd g cfg f rnd s))
      else \<lparr>returned = lastObjectiveGlobal s, iterations = i, final = s\<rparr>)"
  by pat_completeness auto
termination
  by (relation "measure (\<lambda>(upd, g, cfg, f, rnd, i, s). maxIterations cfg - i)") auto

definition Optimize ::
  "velocity_policy \<Rightarrow> garbage \<Rightarrow> PSOType \<Rightarrow> (mat \<Rightarrow> real) \<Rightarrow> rng \<Rightarrow> mat \<Rightarrow> outcome" where
  "Optimize upd g cfg f rnd x = Optimize_loop upd g cfg f rnd 0 (initial_state g cfg x)"

subsection \<open>Notions for the statements\<close>

text \<open>
  The state at the start of round \<open>n\<close> of the outer loop, counted from 0, for a call that
  gets that far: a call that starts \<open>k\<close> rounds passes through the states 0 to \<open>k - 1\<close> and
  returns in state \<open>k\<close>.
\<close>

definition swarm_at ::
  "velocity_policy \<Rightarrow> garbage \<Rightarrow> PSOType \<Rightarrow> (mat \<Rightarrow> real) \<Rightarrow> rng \<Rightarrow> mat \<Rightarrow> nat \<Rightarrow> pso_state" where
  "swarm_at upd g cfg f rnd x n = ((iteration upd g cfg f rnd) ^^ n) (initial_state g cfg x)"

text \<open>The individual best is at most every objective value evaluated so far.\<close>

definition below_evaluated :: "pso_state \<Rightarrow> bool" where
  "below_evaluated s = (\<forall>y \<in> set (evaluated s). lastObjectiveIndividual s \<le> y)"

text \<open>
  The individual best and the global best hold the same value and the same position;
  the individual best of a later state is an improvement on an earlier one, or both are
  the same.
\<close>

definition bests_agree :: "pso_state \<Rightarrow> bool" where
  "bests_agree s =
     (lastObjectiveIndividual s = lastObjectiveGlobal s \<and>
      bestParticlePosition s = bestSwarmPosition s)"

definition improved_or_same :: "pso_state \<Rightarrow> pso_state \<Rightarrow> bool" where
  "improved_or_same s s' =
     (lastObjectiveIndividual s' < lastObjectiveIndividual s \<or>
      lastObjectiveIndividual s' = lastObjectiveIndividual s \<and>
      bestParticlePosition s' = bestParticlePosition s)"

text \<open>
  The new velocity of one particle in the words of section 4.2 of the specification:
  \<open>\<omega>\<close> times the velocity, plus \<open>c1\<close> times \<open>r1\<close> elementwise times the difference of the
  personal best and the position, plus \<open>c2\<close> times \<open>r2\<close> elementwise times the difference
  of the global best and the position, both differences between whole matrices.
\<close>

definition spec_velocity ::
  "mat \<Rightarrow> mat \<Rightarrow> mat \<Rightarrow> mat \<Rightarrow> mat \<Rightarrow> mat \<Rightarrow> real \<Rightarrow> real \<Rightarrow> real \<Rightarrow> mat" where
  "spec_velocity r1 r2 position velocity personalBest globalBest w c1 c2 =
     mat_plus
       (mat_plus (scalar_times w velocity)
          (schur (scalar_times c1 r1) (mat_minus personalBest position)))
       (schur (scalar_times c2 r2) (mat_minus globalBest position))"

text \<open>
  What the loops of the older policy keep: the shape of the velocities and their number
  of slices. The faults of one particle when it reads the two best positions at its own
  index. Two states of those loops that agree on the shape, on the count of draws and on
  the velocity of particle \<open>i\<close>.
\<close>

definition shaped :: "nat \<Rightarrow> nat \<Rightarrow> nat \<Rightarrow> cube \<times> nat \<times> fault list \<Rightarrow> bool" where
  "shaped r c n acc = (c_rows (fst acc) = r \<and> c_cols (fst acc) = c \<and> n_slices (fst acc) = n)"

definition best_reads :: "mat \<Rightarrow> mat \<Rightarrow> nat \<Rightarrow> fault set" where
  "best_reads pb gb i =
     (if i < n_elem pb then {} else {ElemOutOfBounds i}) \<union>
     (if i < n_elem gb then {} else {ElemOutOfBounds i})"

definition alike :: "nat \<Rightarrow> cube \<times> nat \<times> fault list \<Rightarrow> cube \<times> nat \<times> fault list \<Rightarrow> bool" where
  "alike i a b =
     (c_rows (fst a) = c_rows (fst b) \<and> c_cols (fst a) = c_cols (fst b) \<and>
      n_slices (fst a) = n_slices (fst b) \<and> fst (snd a) = fst (snd b) \<and>
      slices (fst a) ! i = slices (fst b) ! i)"


text \<open>
  The swarm has \<open>n\<close> particles of \<open>r\<close> by \<open>c\<close> elements in positions and velocities, and both
  best positions have \<open>r * c\<close> elements. A policy keeps that shape of the velocities,
  and the faults of a call of it on such a swarm are \<open>F r c n\<close>.
\<close>

definition in_shape :: "nat \<Rightarrow> nat \<Rightarrow> nat \<Rightarrow> pso_state \<Rightarrow> bool" where
  "in_shape r c n s =
     (shaped r c n (particlePosition s, 0, []) \<and> shaped r c n (particleVelocity s, 0, []) \<and>
      n_elem (bestParticlePosition s) = r * c \<and> n_elem (bestSwarmPosition s) = r * c)"

definition keeps_shape :: "velocity_policy \<Rightarrow> (nat \<Rightarrow> nat \<Rightarrow> nat \<Rightarrow> fault set) \<Rightarrow> bool" where
  "keeps_shape upd F =
     (\<forall>g rnd d p v pb gb w c1 c2 n.
        n_slices p = n \<and> shaped (c_rows p) (c_cols p) n (v, 0, []) \<and>
        n_elem pb = c_rows p * c_cols p \<and> n_elem gb = c_rows p * c_cols p \<longrightarrow>
        shaped (c_rows p) (c_cols p) n (fst (upd g rnd d p v pb gb w c1 c2 n), 0, []) \<and>
        set (snd (snd (upd g rnd d p v pb gb w c1 c2 n))) = F (c_rows p) (c_cols p) n)"

text \<open>
  A policy keeps the storage of the velocities well-formed; positions and velocities of
  a state are well-formed.
\<close>

definition keeps_storage :: "velocity_policy \<Rightarrow> bool" where
  "keeps_storage upd =
     (\<forall>g rnd d p v pb gb w c1 c2 n.
        wf_cube p \<and> wf_cube v \<and> n_slices p = n \<and>
        shaped (c_rows p) (c_cols p) n (v, 0, []) \<longrightarrow>
        wf_cube (fst (upd g rnd d p v pb gb w c1 c2 n)))"

definition stored :: "pso_state \<Rightarrow> bool" where
  "stored s = (wf_cube (particlePosition s) \<and> wf_cube (particleVelocity s))"

subsection \<open>Concrete inputs\<close>

text \<open>
  Inputs on which the statements below are evaluated: values for the undefined reads,
  an objective with its minimum where every coordinate is 3, a random source that
  always draws one half, a starting point of one element, and three configurations.
\<close>

definition g0 :: garbage where
  "g0 = \<lparr>past_slice = (\<lambda>i. []), past_end = (\<lambda>xs i. 0), uninit_double = 0, stale = []\<rparr>"

definition shifted_sphere :: "mat \<Rightarrow> real" where
  "shifted_sphere m = sum_list (map (\<lambda>x. (x - 3) * (x - 3)) (mem m))"

definition half_draws :: rng where
  "half_draws n = 1 / 2"

definition x1 :: mat where
  "x1 = \<lparr>n_rows = 1, n_cols = 1, mem = [1]\<rparr>"

definition cfg_two_rounds :: PSOType where
  "cfg_two_rounds =
     \<lparr>dimension = 1, interiaWeight = 1, cognitiveAcceleration = 0, socialAcceleration = 0,
      maxIterations = 2, tolerance = 1 / 100000\<rparr>"

definition cfg_loose :: PSOType where
  "cfg_loose =
     \<lparr>dimension = 3, interiaWeight = 9 / 10, cognitiveAcceleration = 1 / 2,
      socialAcceleration = 3 / 10, maxIterations = 200, tolerance = 5\<rparr>"

definition cfg_no_rounds :: PSOType where
  "cfg_no_rounds =
     \<lparr>dimension = 10, interiaWeight = 9 / 10, cognitiveAcceleration = 1 / 2,
      socialAcceleration = 3 / 10, maxIterations = 0, tolerance = 1 / 100000\<rparr>"

definition cfg_no_particles :: PSOType where
  "cfg_no_particles =
     \<lparr>dimension = 0, interiaWeight = 9 / 10, cognitiveAcceleration = 1 / 2,
      socialAcceleration = 3 / 10, maxIterations = 1, tolerance = 1 / 100000\<rparr>"

text \<open>
  States of a swarm of one particle at \<open>x1\<close> with velocity 1: the position, the best
  position, the current objective, the best value, the draws taken and the values
  evaluated.
\<close>

definition one_particle :: "real \<Rightarrow> real \<Rightarrow> real option \<Rightarrow> real \<Rightarrow> nat \<Rightarrow> real list \<Rightarrow> pso_state" where
  "one_particle p b c y d ys =
     \<lparr>iterate = x1,
      particlePosition = \<lparr>c_rows = 1, c_cols = 1, slices = [[p]]\<rparr>,
      particleVelocity = \<lparr>c_rows = 1, c_cols = 1, slices = [[1]]\<rparr>,
      bestParticlePosition = \<lparr>n_rows = 1, n_cols = 1, mem = [b]\<rparr>,
      bestSwarmPosition = \<lparr>n_rows = 1, n_cols = 1, mem = [b]\<rparr>,
      currentObjective = c, lastObjectiveIndividual = y, lastObjectiveGlobal = y,
      drawn = d, evaluated = ys, faults = []\<rparr>"

text \<open>
  A starting point of two elements, a matrix with the same first element, a swarm of one
  particle at that point, a swarm of three particles at \<open>x1\<close>, and a random source that agrees with \<open>half_draws\<close> on the
  first four draws only.
\<close>

definition x12 :: mat where
  "x12 = \<lparr>n_rows = 1, n_cols = 2, mem = [1, 2]\<rparr>"

definition x17 :: mat where
  "x17 = \<lparr>n_rows = 1, n_cols = 2, mem = [1, 7]\<rparr>"

definition swarm12 :: cube where
  "swarm12 = \<lparr>c_rows = 1, c_cols = 2, slices = [[1, 2]]\<rparr>"

definition swarm111 :: cube where
  "swarm111 = \<lparr>c_rows = 1, c_cols = 1, slices = [[1], [1], [1]]\<rparr>"


section \<open>Basic facts about the embedding\<close>

declare Optimize_loop.simps [simp del]

subsection \<open>The outer loop\<close>

lemma Optimize_loop_done:
  "\<not> i < maxIterations cfg \<Longrightarrow>
   Optimize_loop upd g cfg f rnd i s = \<lparr>returned = lastObjectiveGlobal s, iterations = i, final = s\<rparr>"
  by (subst Optimize_loop.simps) simp

lemma Optimize_loop_return:
  "i < maxIterations cfg \<Longrightarrow>
   fst (read_objective g (iteration upd g cfg f rnd s)) < tolerance cfg \<Longrightarrow>
   Optimize_loop upd g cfg f rnd i s =
     \<lparr>returned = fst (read_objective g (iteration upd g cfg f rnd s)),
      iterations = Suc i, final = iteration upd g cfg f rnd s\<rparr>"
  by (subst Optimize_loop.simps) simp

lemma Optimize_loop_continue:
  "i < maxIterations cfg \<Longrightarrow>
   \<not> fst (read_objective g (iteration upd g cfg f rnd s)) < tolerance cfg \<Longrightarrow>
   Optimize_loop upd g cfg f rnd i s =
     Optimize_loop upd g cfg f rnd (Suc i) (iteration upd g cfg f rnd s)"
  by (subst Optimize_loop.simps) simp

lemma loop_rounds [consumes 0, case_names ended returns goes_on]:
  assumes ended: "\<And>i s. \<not> i < maxIterations cfg \<Longrightarrow> P i s"
    and returns: "\<And>i s. i < maxIterations cfg \<Longrightarrow>
        fst (read_objective g (iteration upd g cfg f rnd s)) < tolerance cfg \<Longrightarrow> P i s"
    and goes_on: "\<And>i s. i < maxIterations cfg \<Longrightarrow>
        \<not> fst (read_objective g (iteration upd g cfg f rnd s)) < tolerance cfg \<Longrightarrow>
        P (Suc i) (iteration upd g cfg f rnd s) \<Longrightarrow> P i s"
  shows "P i s"
proof (induction "maxIterations cfg - i" arbitrary: i s)
  case 0
  then show ?case by (simp add: ended)
next
  case (Suc n i s)
  then have less: "i < maxIterations cfg" and n: "n = maxIterations cfg - Suc i"
    by simp_all
  have later: "P (Suc i) (iteration upd g cfg f rnd s)"
    by (rule Suc.hyps(1)) (rule n)
  show ?case
  proof (cases "fst (read_objective g (iteration upd g cfg f rnd s)) < tolerance cfg")
    case True
    with less show ?thesis by (rule returns)
  next
    case False
    with less show ?thesis using later by (rule goes_on)
  qed
qed

subsection \<open>What each step leaves alone\<close>

lemma fold_keeps:
  assumes "\<And>k s. h (step k s) = h s"
  shows "h (fold step ks s) = h s"
  by (induction ks arbitrary: s) (simp_all add: assms)

lemma fold_invariant:
  assumes "\<And>k s. P s \<Longrightarrow> P (step k s)" and "P s"
  shows "P (fold step ks s)"
  using assms(2) by (induction ks arbitrary: s) (simp_all add: assms(1))

lemma evaluate_particle_keeps:
  "iterate (evaluate_particle g f k s) = iterate s"
  "particlePosition (evaluate_particle g f k s) = particlePosition s"
  "particleVelocity (evaluate_particle g f k s) = particleVelocity s"
  "bestSwarmPosition (evaluate_particle g f k s) = bestSwarmPosition s"
  "lastObjectiveGlobal (evaluate_particle g f k s) = lastObjectiveGlobal s"
  "drawn (evaluate_particle g f k s) = drawn s"
  by (simp_all add: evaluate_particle_def Let_def split: prod.split)

lemma sweep_keeps:
  "iterate (sweep g cfg f s) = iterate s"
  "particlePosition (sweep g cfg f s) = particlePosition s"
  "particleVelocity (sweep g cfg f s) = particleVelocity s"
  "bestSwarmPosition (sweep g cfg f s) = bestSwarmPosition s"
  "lastObjectiveGlobal (sweep g cfg f s) = lastObjectiveGlobal s"
  "drawn (sweep g cfg f s) = drawn s"
  unfolding sweep_def by (rule fold_keeps, rule evaluate_particle_keeps)+

lemma global_best_keeps:
  "iterate (global_best s) = iterate s"
  "particlePosition (global_best s) = particlePosition s"
  "particleVelocity (global_best s) = particleVelocity s"
  "bestParticlePosition (global_best s) = bestParticlePosition s"
  "lastObjectiveIndividual (global_best s) = lastObjectiveIndividual s"
  "currentObjective (global_best s) = currentObjective s"
  "drawn (global_best s) = drawn s"
  "evaluated (global_best s) = evaluated s"
  "faults (global_best s) = faults s"
  by (simp_all add: global_best_def)

lemma update_velocity_keeps:
  "iterate (update_velocity upd g cfg rnd s) = iterate s"
  "particlePosition (update_velocity upd g cfg rnd s) = particlePosition s"
  "bestParticlePosition (update_velocity upd g cfg rnd s) = bestParticlePosition s"
  "bestSwarmPosition (update_velocity upd g cfg rnd s) = bestSwarmPosition s"
  "lastObjectiveIndividual (update_velocity upd g cfg rnd s) = lastObjectiveIndividual s"
  "lastObjectiveGlobal (update_velocity upd g cfg rnd s) = lastObjectiveGlobal s"
  "currentObjective (update_velocity upd g cfg rnd s) = currentObjective s"
  "evaluated (update_velocity upd g cfg rnd s) = evaluated s"
  by (simp_all add: update_velocity_def Let_def split: prod.split)

lemma update_position_keeps:
  "iterate (update_position s) = iterate s"
  "particleVelocity (update_position s) = particleVelocity s"
  "bestParticlePosition (update_position s) = bestParticlePosition s"
  "bestSwarmPosition (update_position s) = bestSwarmPosition s"
  "lastObjectiveIndividual (update_position s) = lastObjectiveIndividual s"
  "lastObjectiveGlobal (update_position s) = lastObjectiveGlobal s"
  "currentObjective (update_position s) = currentObjective s"
  "drawn (update_position s) = drawn s"
  "evaluated (update_position s) = evaluated s"
  by (simp_all add: update_position_def Let_def split: prod.split)

lemmas step_keeps = sweep_keeps global_best_keeps update_velocity_keeps update_position_keeps

lemma iteration_fields:
  "iterate (iteration upd g cfg f rnd s) = iterate s"
  "currentObjective (iteration upd g cfg f rnd s) = currentObjective (sweep g cfg f s)"
  "evaluated (iteration upd g cfg f rnd s) = evaluated (sweep g cfg f s)"
  "lastObjectiveGlobal (iteration upd g cfg f rnd s) = lastObjectiveGlobal (global_best (sweep g cfg f s))"
  "lastObjectiveIndividual (iteration upd g cfg f rnd s) = lastObjectiveIndividual (sweep g cfg f s)"
  "bestParticlePosition (iteration upd g cfg f rnd s) = bestParticlePosition (sweep g cfg f s)"
  "bestSwarmPosition (iteration upd g cfg f rnd s) = bestSwarmPosition (global_best (sweep g cfg f s))"
  by (simp_all add: iteration_def Let_def step_keeps)

lemma Optimize_loop_iterate:
  "iterate (final (Optimize_loop upd g cfg f rnd i s)) = iterate s"
proof (induction upd g cfg f rnd i s rule: Optimize_loop.induct)
  case (1 upd g cfg f rnd i s)
  show ?case
  proof (cases "i < maxIterations cfg")
    case False
    then show ?thesis by (simp add: Optimize_loop_done)
  next
    case True
    show ?thesis
    proof (cases "fst (read_objective g (iteration upd g cfg f rnd s)) < tolerance cfg")
      case stop: True
      with True show ?thesis by (simp add: Optimize_loop_return iteration_fields)
    next
      case False
      with True 1 show ?thesis by (simp add: Optimize_loop_continue iteration_fields)
    qed
  qed
qed

lemma initial_state_iterate: "iterate (initial_state g cfg x) = x"
  by (simp add: initial_state_def Let_def split: prod.split)

lemma Optimize_iterate: "iterate (final (Optimize upd g cfg f rnd x)) = x"
  by (simp add: Optimize_def Optimize_loop_iterate initial_state_iterate)

subsection \<open>The initial swarm\<close>

lemma replicate_fill:
  assumes "k < n"
  shows "(replicate k a @ replicate (n - k) b)[k := a] =
         replicate (Suc k) a @ replicate (n - Suc k) b"
proof -
  from assms have "n - k = Suc (n - Suc k)" by simp
  then have "replicate (n - k) b = b # replicate (n - Suc k) b"
    by (metis replicate_Suc)
  then show ?thesis
    by (simp add: list_update_append replicate_app_Cons_same)
qed

lemma init_fold:
  "k \<le> n \<Longrightarrow>
   fold (init_particle x) [0 ..< k]
     (\<lparr>c_rows = r, c_cols = c, slices = replicate n st\<rparr>,
      \<lparr>c_rows = r, c_cols = c, slices = replicate n st\<rparr>, []) =
     (\<lparr>c_rows = r, c_cols = c, slices = replicate k (mem x) @ replicate (n - k) st\<rparr>,
      \<lparr>c_rows = r, c_cols = c, slices = replicate k (mem x) @ replicate (n - k) st\<rparr>, [])"
proof (induction k)
  case 0
  then show ?case by simp
next
  case (Suc k)
  then have "k < n" by simp
  with Suc show ?case
    by (simp add: init_particle_def set_slice_def n_slices_def replicate_fill)
qed

lemma slice_replicate:
  "k < n \<Longrightarrow>
   slice g \<lparr>c_rows = n_rows x, c_cols = n_cols x, slices = replicate n (mem x)\<rparr> k = (x, [])"
  by (simp add: slice_def n_slices_def)

lemma slice_no_slices:
  "slice g \<lparr>c_rows = r, c_cols = c, slices = []\<rparr> k =
     (\<lparr>n_rows = r, n_cols = c, mem = past_slice g k\<rparr>, [SliceOutOfBounds k])"
  by (simp add: slice_def n_slices_def)

lemma initial_state_eq:
  "initial_state g cfg x =
     \<lparr>iterate = x,
      particlePosition = \<lparr>c_rows = n_rows x, c_cols = n_cols x, slices = replicate (dimension cfg) (mem x)\<rparr>,
      particleVelocity = \<lparr>c_rows = n_rows x, c_cols = n_cols x, slices = replicate (dimension cfg) (mem x)\<rparr>,
      bestParticlePosition = (if 0 < dimension cfg then x else \<lparr>n_rows = n_rows x, n_cols = n_cols x, mem = past_slice g 0\<rparr>),
      bestSwarmPosition = (if 0 < dimension cfg then x else \<lparr>n_rows = n_rows x, n_cols = n_cols x, mem = past_slice g 0\<rparr>),
      currentObjective = None, lastObjectiveIndividual = DBL_MAX,
      lastObjectiveGlobal = DBL_MAX, drawn = 0, evaluated = [],
      faults = (if 0 < dimension cfg then [] else [SliceOutOfBounds 0, SliceOutOfBounds 0])\<rparr>"
  by (simp add: initial_state_def set_size_def init_fold slice_replicate slice_no_slices)

lemma slice_initial:
  "k < dimension cfg \<Longrightarrow> slice g (particlePosition (initial_state g cfg x)) k = (x, [])"
  by (simp add: initial_state_eq slice_replicate)

subsection \<open>The loop over the particles\<close>

lemma evaluate_particle_objective:
  "currentObjective (evaluate_particle g f k s) = Some (f (fst (slice g (particlePosition s) k)))"
  by (simp add: evaluate_particle_def Let_def split: prod.split)

lemma particlePosition_fold:
  "particlePosition (fold (evaluate_particle g f) ks s) = particlePosition s"
  by (rule fold_keeps) (rule evaluate_particle_keeps)

lemma sweep_objective:
  assumes "1 \<le> dimension cfg"
  shows "currentObjective (sweep g cfg f s) =
         Some (f (fst (slice g (particlePosition s) (dimension cfg - 1))))"
proof -
  from assms obtain n where n: "dimension cfg = Suc n"
    by (cases "dimension cfg") simp_all
  have "sweep g cfg f s =
      evaluate_particle g f n (fold (evaluate_particle g f) [0 ..< n] s)"
    by (simp add: sweep_def n)
  then show ?thesis
    by (simp add: evaluate_particle_objective particlePosition_fold n)
qed

lemma sweep_no_particle:
  "dimension cfg = 0 \<Longrightarrow> sweep g cfg f s = s"
  by (simp add: sweep_def)

lemma read_objective_iteration:
  "1 \<le> dimension cfg \<Longrightarrow>
   read_objective g (iteration upd g cfg f rnd s) =
     (f (fst (slice g (particlePosition s) (dimension cfg - 1))), [])"
  by (simp add: read_objective_def iteration_fields sweep_objective)

lemma evaluated_fold:
  "evaluated (fold (evaluate_particle g f) ks s) =
     evaluated s @ map (\<lambda>k. f (fst (slice g (particlePosition s) k))) ks"
proof (induction ks arbitrary: s)
  case Nil
  then show ?case by simp
next
  case (Cons k ks)
  have "evaluated (evaluate_particle g f k s) = evaluated s @ [f (fst (slice g (particlePosition s) k))]"
    by (simp add: evaluate_particle_def Let_def split: prod.split)
  with Cons show ?case
    by (simp add: evaluate_particle_keeps)
qed

lemma sweep_evaluated:
  "evaluated (sweep g cfg f s) =
     evaluated s @ map (\<lambda>k. f (fst (slice g (particlePosition s) k))) [0 ..< dimension cfg]"
  by (simp add: sweep_def evaluated_fold)

lemma last_evaluated:
  assumes "1 \<le> dimension cfg"
  shows "last (evaluated (iteration upd g cfg f rnd s)) =
         f (fst (slice g (particlePosition s) (dimension cfg - 1)))"
proof -
  from assms obtain n where n: "dimension cfg = Suc n"
    by (cases "dimension cfg") simp_all
  then show ?thesis
    by (simp add: iteration_fields sweep_evaluated)
qed

subsection \<open>The states of a call\<close>

lemma swarm_at_0: "swarm_at upd g cfg f rnd x 0 = initial_state g cfg x"
  by (simp add: swarm_at_def)

lemma swarm_at_Suc:
  "swarm_at upd g cfg f rnd x (Suc n) = iteration upd g cfg f rnd (swarm_at upd g cfg f rnd x n)"
  by (simp add: swarm_at_def)

lemma Optimize_loop_final:
  "final (Optimize_loop upd g cfg f rnd i s) =
     ((iteration upd g cfg f rnd) ^^ (iterations (Optimize_loop upd g cfg f rnd i s) - i)) s \<and>
   i \<le> iterations (Optimize_loop upd g cfg f rnd i s) \<and>
   iterations (Optimize_loop upd g cfg f rnd i s) \<le> max i (maxIterations cfg)"
proof (induction i s rule: loop_rounds [of cfg _ g upd f rnd])
  case (ended i s)
  then show ?case by (simp add: Optimize_loop_done)
next
  case (returns i s)
  then show ?case by (simp add: Optimize_loop_return max_def)
next
  case (goes_on i s)
  let ?r = "Optimize_loop upd g cfg f rnd (Suc i) (iteration upd g cfg f rnd s)"
  from goes_on have eq: "Optimize_loop upd g cfg f rnd i s = ?r"
    by (simp add: Optimize_loop_continue)
  from goes_on(3) have "Suc i \<le> iterations ?r" by simp
  then have "iterations ?r - i = Suc (iterations ?r - Suc i)" by simp
  then have "((iteration upd g cfg f rnd) ^^ (iterations ?r - i)) s =
      ((iteration upd g cfg f rnd) ^^ (iterations ?r - Suc i)) (iteration upd g cfg f rnd s)"
    by (simp only: funpow_Suc_right o_apply)
  with goes_on show ?case
    unfolding eq by (simp add: max_def)
qed

lemma Optimize_final:
  "final (Optimize upd g cfg f rnd x) =
     swarm_at upd g cfg f rnd x (iterations (Optimize upd g cfg f rnd x))"
  using Optimize_loop_final [of upd g cfg f rnd 0 "initial_state g cfg x"]
  by (simp add: Optimize_def swarm_at_def)

lemma Optimize_iterations:
  "iterations (Optimize upd g cfg f rnd x) \<le> maxIterations cfg"
  using Optimize_loop_final [of upd g cfg f rnd 0 "initial_state g cfg x"]
  by (simp add: Optimize_def)

lemma Optimize_loop_outcome:
  assumes "1 \<le> dimension cfg"
  shows "iterations (Optimize_loop upd g cfg f rnd i s) = max i (maxIterations cfg) \<and>
           returned (Optimize_loop upd g cfg f rnd i s) =
             lastObjectiveGlobal (final (Optimize_loop upd g cfg f rnd i s)) \<or>
         returned (Optimize_loop upd g cfg f rnd i s) < tolerance cfg \<and>
           returned (Optimize_loop upd g cfg f rnd i s) =
             last (evaluated (final (Optimize_loop upd g cfg f rnd i s)))"
proof (induction i s rule: loop_rounds [of cfg _ g upd f rnd])
  case (ended i s)
  then show ?case
    by (simp add: Optimize_loop_done max_def)
next
  case (returns i s)
  moreover have "fst (read_objective g (iteration upd g cfg f rnd s)) =
      last (evaluated (iteration upd g cfg f rnd s))"
    using assms by (simp add: read_objective_iteration last_evaluated)
  ultimately show ?case
    by (simp add: Optimize_loop_return)
next
  case (goes_on i s)
  then have "Optimize_loop upd g cfg f rnd i s =
      Optimize_loop upd g cfg f rnd (Suc i) (iteration upd g cfg f rnd s)"
    by (simp add: Optimize_loop_continue)
  moreover from goes_on(1) have "max (Suc i) (maxIterations cfg) = max i (maxIterations cfg)"
    by (simp add: max_def)
  ultimately show ?case
    using goes_on(3) by simp
qed

subsection \<open>The best values\<close>

lemma evaluate_particle_below:
  "below_evaluated s \<Longrightarrow> below_evaluated (evaluate_particle g f k s)"
  by (auto simp: below_evaluated_def evaluate_particle_def Let_def split: prod.split)

lemma sweep_below: "below_evaluated s \<Longrightarrow> below_evaluated (sweep g cfg f s)"
  unfolding sweep_def by (rule fold_invariant) (rule evaluate_particle_below)

lemma iteration_below:
  "below_evaluated s \<Longrightarrow> below_evaluated (iteration upd g cfg f rnd s)"
  using sweep_below [of s g cfg f]
  by (simp add: below_evaluated_def iteration_fields)

lemma initial_below: "below_evaluated (initial_state g cfg x)"
  by (simp add: below_evaluated_def initial_state_eq)

lemma swarm_at_below: "below_evaluated (swarm_at upd g cfg f rnd x n)"
  by (induction n) (simp_all add: swarm_at_0 swarm_at_Suc initial_below iteration_below)

lemma global_best_le:
  "lastObjectiveGlobal (global_best s) \<le> lastObjectiveGlobal s"
  "lastObjectiveGlobal (global_best s) \<le> lastObjectiveIndividual s"
  by (simp_all add: global_best_def)

lemma evaluate_particle_improved:
  "improved_or_same s s' \<Longrightarrow> improved_or_same s (evaluate_particle g f k s')"
  by (auto simp: improved_or_same_def evaluate_particle_def Let_def split: prod.split)

lemma sweep_improved: "improved_or_same s (sweep g cfg f s)"
  unfolding sweep_def
  by (rule fold_invariant) (simp_all add: evaluate_particle_improved, simp add: improved_or_same_def)

lemma global_best_agree:
  assumes "bests_agree s"
  shows "bests_agree (global_best (sweep g cfg f s))"
  using assms sweep_improved [of s g cfg f]
  by (auto simp: bests_agree_def improved_or_same_def global_best_def sweep_keeps)

lemma iteration_agree:
  "bests_agree s \<Longrightarrow> bests_agree (iteration upd g cfg f rnd s)"
  using global_best_agree [of s g cfg f]
  by (simp add: bests_agree_def iteration_fields global_best_keeps)

lemma initial_agree: "bests_agree (initial_state g cfg x)"
  by (simp add: bests_agree_def initial_state_eq)

lemma swarm_at_agree: "bests_agree (swarm_at upd g cfg f rnd x n)"
  by (induction n) (simp_all add: swarm_at_0 swarm_at_Suc initial_agree iteration_agree)

subsection \<open>Faults are only added\<close>

lemma evaluate_particle_faults:
  "set (faults s) \<subseteq> set (faults (evaluate_particle g f k s))"
  by (auto simp: evaluate_particle_def Let_def split: prod.split)

lemma fold_faults:
  "set (faults s) \<subseteq> set (faults (fold (evaluate_particle g f) ks s))"
proof (induction ks arbitrary: s)
  case Nil
  then show ?case by simp
next
  case (Cons k ks)
  then show ?case
    using evaluate_particle_faults [of s g f k] by (simp, blast)
qed

lemma iteration_faults:
  "set (faults s) \<subseteq> set (faults (iteration upd g cfg f rnd s))"
  using fold_faults [of s g f "[0 ..< dimension cfg]"]
  by (auto simp: iteration_def Let_def update_position_def update_velocity_def
      global_best_def sweep_def split: prod.split)

lemma iteration_uninitialized:
  assumes "dimension cfg = 0" and "currentObjective s = None"
  shows "UninitializedRead \<in> set (faults (iteration upd g cfg f rnd s))"
proof -
  have "currentObjective (update_position (update_velocity upd g cfg rnd
          (global_best (sweep g cfg f s)))) = None"
    using assms by (simp add: step_keeps sweep_no_particle)
  then show ?thesis
    by (simp add: iteration_def Let_def read_objective_def)
qed

lemma Optimize_loop_faults:
  "set (faults s) \<subseteq> set (faults (final (Optimize_loop upd g cfg f rnd i s)))"
proof (induction i s rule: loop_rounds [of cfg _ g upd f rnd])
  case (ended i s)
  then show ?case by (simp add: Optimize_loop_done)
next
  case (returns i s)
  then show ?case by (simp add: Optimize_loop_return iteration_faults)
next
  case (goes_on i s)
  then have "Optimize_loop upd g cfg f rnd i s =
      Optimize_loop upd g cfg f rnd (Suc i) (iteration upd g cfg f rnd s)"
    by (simp add: Optimize_loop_continue)
  with goes_on(3) show ?case
    using iteration_faults [of s upd g cfg f rnd] by auto
qed

lemma Optimize_loop_first_round_faults:
  assumes "i < maxIterations cfg"
  shows "set (faults (iteration upd g cfg f rnd s))
         \<subseteq> set (faults (final (Optimize_loop upd g cfg f rnd i s)))"
proof (cases "fst (read_objective g (iteration upd g cfg f rnd s)) < tolerance cfg")
  case True
  with assms show ?thesis by (simp add: Optimize_loop_return)
next
  case False
  with assms show ?thesis by (simp add: Optimize_loop_continue Optimize_loop_faults)
qed

subsection \<open>The loop of InertiaWeight::Update, namespace ens\<close>

lemma elem_faults:
  "snd (elem g m i) = (if i < n_elem m then [] else [ElemOutOfBounds i])"
  by (simp add: elem_def)

lemma elem_in: "i < n_elem m \<Longrightarrow> fst (elem g m i) = mem m ! i"
  by (simp add: elem_def)

lemma Update_rhs_faults:
  assumes "i < n_slices p" and "i < n_slices v"
  shows "snd (Update_rhs g r1 r2 p v pb gb w c1 c2 i) =
         (if i < n_elem pb then [] else [ElemOutOfBounds i]) @
         (if i < n_elem gb then [] else [ElemOutOfBounds i])"
  using assms by (simp add: Update_rhs_def slice_def elem_def)

lemma Update_rhs_value:
  "fst (Update_rhs g r1 r2 p v pb gb w c1 c2 i) =
     mat_plus
       (mat_plus (scalar_times w (fst (slice g v i)))
          (schur (scalar_times c1 r1) (scalar_minus (fst (elem g pb i)) (fst (slice g p i)))))
       (schur (scalar_times c2 r2) (scalar_minus (fst (elem g gb i)) (fst (slice g p i))))"
  by (simp add: Update_rhs_def split: prod.split)

lemma Update_particle_eq:
  assumes "i < n_slices v"
  shows "Update_particle g r1 r2 p pb gb w c1 c2 i (v, e) =
         (v\<lparr>slices := (slices v)[i := mem (fst (Update_rhs g r1 r2 p v pb gb w c1 c2 i))]\<rparr>,
          e @ snd (Update_rhs g r1 r2 p v pb gb w c1 c2 i))"
  using assms by (simp add: Update_particle_def set_slice_def split: prod.split)

lemma slice_other:
  "k \<noteq> i \<Longrightarrow> slice g (v\<lparr>slices := (slices v)[k := xs]\<rparr>) i = slice g v i"
  by (simp add: slice_def n_slices_def)

lemma Update_rhs_other:
  "k \<noteq> i \<Longrightarrow>
   Update_rhs g r1 r2 p (v\<lparr>slices := (slices v)[k := xs]\<rparr>) pb gb w c1 c2 i =
   Update_rhs g r1 r2 p v pb gb w c1 c2 i"
  by (simp add: Update_rhs_def slice_other)

lemma Update_fold:
  assumes "distinct ks" and "\<forall>k \<in> set ks. k < n_slices v"
  shows "fold (Update_particle g r1 r2 p pb gb w c1 c2) ks (v, e) =
         (v\<lparr>slices := map (\<lambda>i. if i \<in> set ks
                                then mem (fst (Update_rhs g r1 r2 p v pb gb w c1 c2 i))
                                else slices v ! i) [0 ..< n_slices v]\<rparr>,
          e @ concat (map (\<lambda>i. snd (Update_rhs g r1 r2 p v pb gb w c1 c2 i)) ks))"
  using assms
proof (induction ks arbitrary: v e)
  case Nil
  have "map (\<lambda>i. slices v ! i) [0 ..< n_slices v] = slices v"
    by (simp add: n_slices_def map_nth)
  then show ?case by simp
next
  case (Cons k ks)
  let ?x = "mem (fst (Update_rhs g r1 r2 p v pb gb w c1 c2 k))"
  let ?v = "v\<lparr>slices := (slices v)[k := ?x]\<rparr>"
  from Cons.prems have k: "k < n_slices v" "k \<notin> set ks" "distinct ks"
    and ks: "\<forall>i \<in> set ks. i < n_slices ?v"
    by (simp_all add: n_slices_def)
  have rhs: "\<And>i. i \<in> set ks \<Longrightarrow>
      Update_rhs g r1 r2 p ?v pb gb w c1 c2 i = Update_rhs g r1 r2 p v pb gb w c1 c2 i"
    using k(2) by (intro Update_rhs_other) auto
  have len: "n_slices ?v = n_slices v"
    by (simp add: n_slices_def)
  have "map (\<lambda>i. if i \<in> set ks then mem (fst (Update_rhs g r1 r2 p ?v pb gb w c1 c2 i))
                  else slices ?v ! i) [0 ..< n_slices v] =
        map (\<lambda>i. if i \<in> set (k # ks) then mem (fst (Update_rhs g r1 r2 p v pb gb w c1 c2 i))
                  else slices v ! i) [0 ..< n_slices v]"
    using k(1,2) by (auto simp: rhs n_slices_def nth_list_update)
  moreover have "concat (map (\<lambda>i. snd (Update_rhs g r1 r2 p ?v pb gb w c1 c2 i)) ks) =
      concat (map (\<lambda>i. snd (Update_rhs g r1 r2 p v pb gb w c1 c2 i)) ks)"
    using rhs by (simp cong: map_cong)
  ultimately show ?case
    using Cons.IH [OF k(3) ks, of "e @ snd (Update_rhs g r1 r2 p v pb gb w c1 c2 k)"]
    by (simp add: Update_particle_eq [OF k(1)] len)
qed

lemma InertiaWeight_Update_eq:
  assumes "n \<le> n_slices v"
  shows "InertiaWeight_Update g rnd d p v pb gb w c1 c2 n =
     (v\<lparr>slices := map (\<lambda>i. if i < n
         then mem (fst (Update_rhs g (fst (randu rnd d (c_rows p) (c_cols p)))
                 (fst (randu rnd (d + c_rows p * c_cols p) (c_rows p) (c_cols p)))
                 p v pb gb w c1 c2 i))
         else slices v ! i) [0 ..< n_slices v]\<rparr>,
      d + c_rows p * c_cols p + c_rows p * c_cols p,
      concat (map (\<lambda>i. snd (Update_rhs g (fst (randu rnd d (c_rows p) (c_cols p)))
                 (fst (randu rnd (d + c_rows p * c_cols p) (c_rows p) (c_cols p)))
                 p v pb gb w c1 c2 i)) [0 ..< n]))"
  using assms
  by (simp add: InertiaWeight_Update_def randu_def Update_fold)

lemma Update_faults:
  assumes "n_slices p = n" and "n_slices v = n"
    and "n_elem pb = c_rows p * c_cols p" and "n_elem gb = c_rows p * c_cols p"
  shows "snd (snd (InertiaWeight_Update g rnd d p v pb gb w c1 c2 n)) =
         concat (map (\<lambda>i. if i < c_rows p * c_cols p then []
                           else [ElemOutOfBounds i, ElemOutOfBounds i]) [0 ..< n])"
proof -
  let ?r1 = "fst (randu rnd d (c_rows p) (c_cols p))"
  let ?r2 = "fst (randu rnd (d + c_rows p * c_cols p) (c_rows p) (c_cols p))"
  have m: "map (\<lambda>i. snd (Update_rhs g ?r1 ?r2 p v pb gb w c1 c2 i)) [0 ..< n] =
      map (\<lambda>i. if i < c_rows p * c_cols p then []
                else [ElemOutOfBounds i, ElemOutOfBounds i]) [0 ..< n]"
    by (rule map_cong [OF refl]) (simp add: Update_rhs_faults assms)
  show ?thesis
    using assms(2) by (simp add: InertiaWeight_Update_eq m)
qed

subsection \<open>The loops of InertiaWeight::Update, namespace mlpack\<close>

lemma fold_faults_union:
  assumes "\<And>k acc. k \<in> set ks \<Longrightarrow> I acc \<Longrightarrow>
      I (step k acc) \<and> set (snd (snd (step k acc))) = set (snd (snd acc)) \<union> A k"
    and "I acc"
  shows "I (fold step ks acc) \<and>
         set (snd (snd (fold step ks acc))) = set (snd (snd acc)) \<union> (\<Union>k \<in> set ks. A k)"
  using assms
proof (induction ks arbitrary: acc)
  case Nil
  then show ?case by simp
next
  case (Cons k ks)
  have step: "I (step k acc) \<and> set (snd (snd (step k acc))) = set (snd (snd acc)) \<union> A k"
    by (rule Cons.prems(1)) (simp_all add: Cons.prems(2))
  have "I (fold step ks (step k acc)) \<and>
      set (snd (snd (fold step ks (step k acc)))) =
        set (snd (snd (step k acc))) \<union> (\<Union>k \<in> set ks. A k)"
    by (rule Cons.IH) (simp_all add: Cons.prems(1) step)
  with step show ?case
    by auto
qed

lemma set_elem_shape:
  "c_rows (fst (set_elem v i k y)) = c_rows v"
  "c_cols (fst (set_elem v i k y)) = c_cols v"
  "n_slices (fst (set_elem v i k y)) = n_slices v"
  by (simp_all add: set_elem_def n_slices_def)

lemma Update_element_faults:
  assumes "shaped (c_rows p) (c_cols p) n acc" and "i < n" and "n_slices p = n"
    and "k < c_rows p * c_cols p"
  shows "shaped (c_rows p) (c_cols p) n (Update_element g rnd p pb gb w c1 c2 i k acc) \<and>
         set (snd (snd (Update_element g rnd p pb gb w c1 c2 i k acc))) =
           set (snd (snd acc)) \<union> best_reads pb gb i"
proof -
  obtain v d e where acc: "acc = (v, d, e)"
    by (cases acc)
  with assms have v: "c_rows v = c_rows p" "c_cols v = c_cols p" "n_slices v = n"
    by (simp_all add: shaped_def)
  have reads: "snd (slice g v i) = []" "snd (slice g p i) = []"
    "snd (elem g (fst (slice g v i)) k) = []" "snd (elem g (fst (slice g p i)) k) = []"
    using assms(2,3,4) v by (simp_all add: slice_def elem_def n_elem_def)
  have assign: "snd (set_elem v i k y) = []" for y
    using assms(2,4) v by (simp add: set_elem_def)
  show ?thesis
    using reads assign v
    by (auto simp: acc Update_element_def shaped_def set_elem_shape elem_faults
        best_reads_def case_prod_beta)
qed

lemma slice_first:
  "0 < n_slices p \<Longrightarrow>
   slice g p 0 = (\<lparr>n_rows = c_rows p, n_cols = c_cols p, mem = slices p ! 0\<rparr>, [])"
  by (simp add: slice_def)

lemma Update_row_faults:
  assumes "shaped (c_rows p) (c_cols p) n acc" and "i < n" and "n_slices p = n"
    and "j < c_rows p"
  shows "shaped (c_rows p) (c_cols p) n (Update_row g rnd p pb gb w c1 c2 i j acc) \<and>
         set (snd (snd (Update_row g rnd p pb gb w c1 c2 i j acc))) =
           set (snd (snd acc)) \<union> (if 0 < c_cols p then best_reads pb gb i else {})"
proof -
  obtain v d e where acc: "acc = (v, d, e)"
    by (cases acc)
  from assms(2,3) have first: "slice g p 0 =
      (\<lparr>n_rows = c_rows p, n_cols = c_cols p, mem = slices p ! 0\<rparr>, [])"
    by (intro slice_first) simp
  have row: "Update_row g rnd p pb gb w c1 c2 i j acc =
      fold (Update_element g rnd p pb gb w c1 c2 i) [0 ..< c_cols p] acc"
    by (simp add: Update_row_def acc first)
  have "k < c_rows p * c_cols p" if "k < c_cols p" for k
  proof -
    from assms(4) obtain m where "c_rows p = Suc m"
      by (cases "c_rows p") simp_all
    with that show ?thesis by simp
  qed
  then have "shaped (c_rows p) (c_cols p) n
        (fold (Update_element g rnd p pb gb w c1 c2 i) [0 ..< c_cols p] acc) \<and>
      set (snd (snd (fold (Update_element g rnd p pb gb w c1 c2 i) [0 ..< c_cols p] acc))) =
        set (snd (snd acc)) \<union> (\<Union>k \<in> set [0 ..< c_cols p]. best_reads pb gb i)"
    using assms(1,2,3)
    by (intro fold_faults_union Update_element_faults) simp_all
  then show ?thesis
    unfolding row by auto
qed

lemma Update_particle_mlpack_faults:
  assumes "shaped (c_rows p) (c_cols p) n acc" and "i < n" and "n_slices p = n"
  shows "shaped (c_rows p) (c_cols p) n (Update_particle_mlpack g rnd p pb gb w c1 c2 i acc) \<and>
         set (snd (snd (Update_particle_mlpack g rnd p pb gb w c1 c2 i acc))) =
           set (snd (snd acc)) \<union>
           (if 0 < c_rows p * c_cols p then best_reads pb gb i else {})"
proof -
  obtain v d e where acc: "acc = (v, d, e)"
    by (cases acc)
  from assms(2,3) have first: "slice g p 0 =
      (\<lparr>n_rows = c_rows p, n_cols = c_cols p, mem = slices p ! 0\<rparr>, [])"
    by (intro slice_first) simp
  have particle: "Update_particle_mlpack g rnd p pb gb w c1 c2 i acc =
      fold (Update_row g rnd p pb gb w c1 c2 i) [0 ..< c_rows p] acc"
    by (simp add: Update_particle_mlpack_def acc first)
  have "shaped (c_rows p) (c_cols p) n
        (fold (Update_row g rnd p pb gb w c1 c2 i) [0 ..< c_rows p] acc) \<and>
      set (snd (snd (fold (Update_row g rnd p pb gb w c1 c2 i) [0 ..< c_rows p] acc))) =
        set (snd (snd acc)) \<union>
        (\<Union>j \<in> set [0 ..< c_rows p]. if 0 < c_cols p then best_reads pb gb i else {})"
    using assms
    by (intro fold_faults_union Update_row_faults) simp_all
  then show ?thesis
    unfolding particle by auto
qed

lemma InertiaWeight_Update_mlpack_faults:
  assumes "n_slices p = n" and "n_slices v = n"
    and "c_rows v = c_rows p" and "c_cols v = c_cols p"
  shows "set (snd (snd (InertiaWeight_Update_mlpack g rnd d p v pb gb w c1 c2 n))) =
         (if 0 < c_rows p * c_cols p then \<Union>i \<in> {0 ..< n}. best_reads pb gb i else {})"
proof -
  have "shaped (c_rows p) (c_cols p) n (v, d, [])"
    using assms by (simp add: shaped_def)
  then have "shaped (c_rows p) (c_cols p) n
        (fold (Update_particle_mlpack g rnd p pb gb w c1 c2) [0 ..< n] (v, d, [])) \<and>
      set (snd (snd (fold (Update_particle_mlpack g rnd p pb gb w c1 c2) [0 ..< n] (v, d, [])))) =
        set (snd (snd (v, d, []))) \<union>
        (\<Union>i \<in> set [0 ..< n]. if 0 < c_rows p * c_cols p then best_reads pb gb i else {})"
    using assms(1)
    by (intro fold_faults_union Update_particle_mlpack_faults) simp_all
  then show ?thesis
    by (simp add: InertiaWeight_Update_mlpack_def)
qed

lemma best_reads_same_shape:
  assumes "n_elem pb = m" and "n_elem gb = m"
  shows "(\<Union>i \<in> {0 ..< n}. best_reads pb gb i) = ElemOutOfBounds ` {m ..< n}"
  using assms by (auto simp: best_reads_def)

lemma fold_related:
  assumes "\<And>k a b. k \<in> set ks \<Longrightarrow> R a b \<Longrightarrow> R (step k a) (step' k b)" and "R a b"
  shows "R (fold step ks a) (fold step' ks b)"
  using assms
proof (induction ks arbitrary: a b)
  case Nil
  then show ?case by simp
next
  case (Cons k ks)
  have "R (step k a) (step' k b)"
    by (rule Cons.prems(1)) (simp_all add: Cons.prems(2))
  then have "R (fold step ks (step k a)) (fold step' ks (step' k b))"
    by (rule Cons.IH [rotated]) (simp add: Cons.prems(1))
  then show ?case by simp
qed

lemma slice_alike:
  assumes "alike i a b"
  shows "fst (slice g (fst a) i) = fst (slice g (fst b) i)"
  using assms by (simp add: alike_def slice_def)

lemma Update_element_alike:
  assumes "alike i a b"
    and "i' = i \<longrightarrow> fst (elem g pb i) = fst (elem g pb' i) \<and>
                   fst (elem g gb i) = fst (elem g gb' i)"
  shows "alike i (Update_element g rnd p pb gb w c1 c2 i' k a)
           (Update_element g rnd p pb' gb' w c1 c2 i' k b)"
proof (cases "i' = i")
  case True
  with assms(2) have best: "fst (elem g pb i) = fst (elem g pb' i)"
      "fst (elem g gb i) = fst (elem g gb' i)"
    by simp_all
  from assms(1) have "fst (slice g (fst a) i) = fst (slice g (fst b) i)"
    by (rule slice_alike)
  with assms(1) best show ?thesis
    by (simp add: True alike_def Update_element_def set_elem_def n_slices_def
        case_prod_beta Let_def)
next
  case False
  with assms(1) show ?thesis
    by (simp add: alike_def Update_element_def set_elem_def n_slices_def case_prod_beta
        Let_def)
qed

lemma Update_row_alike:
  assumes "alike i a b"
    and "i' = i \<longrightarrow> fst (elem g pb i) = fst (elem g pb' i) \<and>
                   fst (elem g gb i) = fst (elem g gb' i)"
  shows "alike i (Update_row g rnd p pb gb w c1 c2 i' j a)
           (Update_row g rnd p pb' gb' w c1 c2 i' j b)"
proof -
  obtain v d e where a: "a = (v, d, e)" by (cases a)
  obtain v' d' e' where b: "b = (v', d', e')" by (cases b)
  have "alike i (fold (Update_element g rnd p pb gb w c1 c2 i')
          [0 ..< n_cols (fst (slice g p 0))] (v, d, e @ snd (slice g p 0)))
        (fold (Update_element g rnd p pb' gb' w c1 c2 i')
          [0 ..< n_cols (fst (slice g p 0))] (v', d', e' @ snd (slice g p 0)))"
  proof (rule fold_related [where R = "alike i"])
    show "alike i (v, d, e @ snd (slice g p 0)) (v', d', e' @ snd (slice g p 0))"
      using assms(1) by (simp add: alike_def a b)
  qed (rule Update_element_alike, simp_all add: assms(2))
  then show ?thesis
    by (simp add: Update_row_def a b case_prod_beta)
qed

lemma Update_particle_mlpack_alike:
  assumes "alike i a b"
    and "i' = i \<longrightarrow> fst (elem g pb i) = fst (elem g pb' i) \<and>
                   fst (elem g gb i) = fst (elem g gb' i)"
  shows "alike i (Update_particle_mlpack g rnd p pb gb w c1 c2 i' a)
           (Update_particle_mlpack g rnd p pb' gb' w c1 c2 i' b)"
proof -
  obtain v d e where a: "a = (v, d, e)" by (cases a)
  obtain v' d' e' where b: "b = (v', d', e')" by (cases b)
  have "alike i (fold (Update_row g rnd p pb gb w c1 c2 i')
          [0 ..< n_rows (fst (slice g p 0))] (v, d, e @ snd (slice g p 0)))
        (fold (Update_row g rnd p pb' gb' w c1 c2 i')
          [0 ..< n_rows (fst (slice g p 0))] (v', d', e' @ snd (slice g p 0)))"
  proof (rule fold_related [where R = "alike i"])
    show "alike i (v, d, e @ snd (slice g p 0)) (v', d', e' @ snd (slice g p 0))"
      using assms(1) by (simp add: alike_def a b)
  qed (rule Update_row_alike, simp_all add: assms(2))
  then show ?thesis
    by (simp add: Update_particle_mlpack_def a b case_prod_beta)
qed

lemma InertiaWeight_Update_mlpack_own_element:
  assumes "fst (elem g pb i) = fst (elem g pb' i)"
    and "fst (elem g gb i) = fst (elem g gb' i)"
  shows "slices (fst (InertiaWeight_Update_mlpack g rnd d p v pb gb w c1 c2 n)) ! i =
         slices (fst (InertiaWeight_Update_mlpack g rnd d p v pb' gb' w c1 c2 n)) ! i"
proof -
  have "alike i (fold (Update_particle_mlpack g rnd p pb gb w c1 c2) [0 ..< n] (v, d, []))
      (fold (Update_particle_mlpack g rnd p pb' gb' w c1 c2) [0 ..< n] (v, d, []))"
  proof (rule fold_related [where R = "alike i"])
    show "alike i (v, d, []) (v, d, [])"
      by (simp add: alike_def)
  qed (rule Update_particle_mlpack_alike, simp_all add: assms)
  then show ?thesis
    by (simp add: InertiaWeight_Update_mlpack_def alike_def)
qed

subsection \<open>The draws a policy takes\<close>

lemma randu_cong:
  assumes "\<And>m. d \<le> m \<Longrightarrow> m < d + r * k \<Longrightarrow> rnd1 m = rnd2 m"
  shows "randu rnd1 d r k = randu rnd2 d r k"
  using assms by (simp add: randu_def)









lemma Update_row_eq:
  "Update_row g rnd p pb gb w c1 c2 i j acc =
     fold (Update_element g rnd p pb gb w c1 c2 i) [0 ..< c_cols p]
       (fst acc, fst (snd acc), snd (snd acc) @ snd (slice g p 0))"
  by (simp add: Update_row_def case_prod_beta slice_def)

lemma Update_particle_mlpack_eq:
  "Update_particle_mlpack g rnd p pb gb w c1 c2 i acc =
     fold (Update_row g rnd p pb gb w c1 c2 i) [0 ..< c_rows p]
       (fst acc, fst (snd acc), snd (snd acc) @ snd (slice g p 0))"
  by (simp add: Update_particle_mlpack_def case_prod_beta slice_def)







lemma update_position_value:
  "particlePosition (update_position s) =
     fst (cube_plus (particlePosition s) (particleVelocity s))"
  by (simp add: update_position_def split: prod.split)










subsection \<open>The faults of a call\<close>

lemma keeps_shapeD:
  assumes "keeps_shape upd F" and "n_slices p = n" and "shaped (c_rows p) (c_cols p) n (v, 0, [])"
    and "n_elem pb = c_rows p * c_cols p" and "n_elem gb = c_rows p * c_cols p"
  shows "shaped (c_rows p) (c_cols p) n (fst (upd g rnd d p v pb gb w c1 c2 n), 0, [])"
    and "set (snd (snd (upd g rnd d p v pb gb w c1 c2 n))) = F (c_rows p) (c_cols p) n"
  using assms unfolding keeps_shape_def by blast+

lemma InertiaWeight_keeps_shape:
  "keeps_shape InertiaWeight_Update (\<lambda>r c n. ElemOutOfBounds ` {r * c ..< n})"
  unfolding keeps_shape_def
proof (intro allI impI conjI)
  fix g rnd d p v pb gb w c1 c2 n
  assume a: "n_slices p = n \<and> shaped (c_rows p) (c_cols p) n (v, 0, []) \<and>
    n_elem pb = c_rows p * c_cols p \<and> n_elem gb = c_rows p * c_cols p"
  then have v: "n_slices v = n" "c_rows v = c_rows p" "c_cols v = c_cols p"
    by (simp_all add: shaped_def)
  then show "shaped (c_rows p) (c_cols p) n
      (fst (InertiaWeight_Update g rnd d p v pb gb w c1 c2 n), 0, [])"
    by (simp add: InertiaWeight_Update_eq shaped_def n_slices_def)
  from a v have "snd (snd (InertiaWeight_Update g rnd d p v pb gb w c1 c2 n)) =
      concat (map (\<lambda>i. if i < c_rows p * c_cols p then []
                        else [ElemOutOfBounds i, ElemOutOfBounds i]) [0 ..< n])"
    by (intro Update_faults) simp_all
  then show "set (snd (snd (InertiaWeight_Update g rnd d p v pb gb w c1 c2 n))) =
      ElemOutOfBounds ` {c_rows p * c_cols p ..< n}"
    by auto
qed

lemma InertiaWeight_mlpack_shape:
  assumes "n_slices p = n" and "shaped (c_rows p) (c_cols p) n (v, d, [])"
  shows "shaped (c_rows p) (c_cols p) n
           (fold (Update_particle_mlpack g rnd p pb gb w c1 c2) [0 ..< n] (v, d, []))"
proof -
  have "shaped (c_rows p) (c_cols p) n
        (fold (Update_particle_mlpack g rnd p pb gb w c1 c2) [0 ..< n] (v, d, [])) \<and>
      set (snd (snd (fold (Update_particle_mlpack g rnd p pb gb w c1 c2) [0 ..< n] (v, d, [])))) =
        set (snd (snd (v, d, []))) \<union>
        (\<Union>i \<in> set [0 ..< n]. if 0 < c_rows p * c_cols p then best_reads pb gb i else {})"
    using assms
    by (intro fold_faults_union Update_particle_mlpack_faults) simp_all
  then show ?thesis by simp
qed

lemma InertiaWeight_mlpack_keeps_shape:
  "keeps_shape InertiaWeight_Update_mlpack
     (\<lambda>r c n. if 0 < r * c then ElemOutOfBounds ` {r * c ..< n} else {})"
  unfolding keeps_shape_def
proof (intro allI impI conjI)
  fix g rnd d p v pb gb w c1 c2 n
  assume a: "n_slices p = n \<and> shaped (c_rows p) (c_cols p) n (v, 0, []) \<and>
    n_elem pb = c_rows p * c_cols p \<and> n_elem gb = c_rows p * c_cols p"
  then have v: "n_slices v = n" "c_rows v = c_rows p" "c_cols v = c_cols p"
    by (simp_all add: shaped_def)
  then have "shaped (c_rows p) (c_cols p) n (v, d, [])"
    by (simp add: shaped_def)
  with a have "shaped (c_rows p) (c_cols p) n
      (fold (Update_particle_mlpack g rnd p pb gb w c1 c2) [0 ..< n] (v, d, []))"
    by (intro InertiaWeight_mlpack_shape) simp
  then show "shaped (c_rows p) (c_cols p) n
      (fst (InertiaWeight_Update_mlpack g rnd d p v pb gb w c1 c2 n), 0, [])"
    by (simp add: InertiaWeight_Update_mlpack_def shaped_def)
  from a v show "set (snd (snd (InertiaWeight_Update_mlpack g rnd d p v pb gb w c1 c2 n))) =
      (if 0 < c_rows p * c_cols p then ElemOutOfBounds ` {c_rows p * c_cols p ..< n} else {})"
    by (simp add: InertiaWeight_Update_mlpack_faults best_reads_same_shape)
qed

lemma evaluate_particle_shape:
  assumes "in_shape r c n s" and "k < n"
  shows "in_shape r c n (evaluate_particle g f k s) \<and>
         faults (evaluate_particle g f k s) = faults s"
  using assms
  by (simp add: in_shape_def shaped_def evaluate_particle_def slice_def n_elem_def Let_def)

lemma sweep_shape:
  assumes "in_shape r c n s" and "m \<le> n"
  shows "in_shape r c n (fold (evaluate_particle g f) [0 ..< m] s) \<and>
         faults (fold (evaluate_particle g f) [0 ..< m] s) = faults s"
  using assms(2)
proof (induction m)
  case 0
  show ?case by (simp add: assms(1))
next
  case (Suc m)
  then have "in_shape r c n (fold (evaluate_particle g f) [0 ..< m] s)"
    and "faults (fold (evaluate_particle g f) [0 ..< m] s) = faults s" and "m < n"
    by simp_all
  then show ?case
    using evaluate_particle_shape [of r c n "fold (evaluate_particle g f) [0 ..< m] s" m g f]
    by simp
qed

lemma global_best_shape:
  "in_shape r c n s \<Longrightarrow> in_shape r c n (global_best s)"
  by (simp add: in_shape_def global_best_def)

lemma update_velocity_shape:
  assumes "keeps_shape upd F" and "in_shape r c n s" and "dimension cfg = n"
  shows "in_shape r c n (update_velocity upd g cfg rnd s) \<and>
         set (faults (update_velocity upd g cfg rnd s)) = set (faults s) \<union> F r c n"
proof -
  from assms(2) have p: "n_slices (particlePosition s) = n"
      "c_rows (particlePosition s) = r" "c_cols (particlePosition s) = c"
    and v: "shaped (c_rows (particlePosition s)) (c_cols (particlePosition s)) n
      (particleVelocity s, 0, [])"
    and b: "n_elem (bestParticlePosition s) =
        c_rows (particlePosition s) * c_cols (particlePosition s)"
      "n_elem (bestSwarmPosition s) =
        c_rows (particlePosition s) * c_cols (particlePosition s)"
    by (simp_all add: in_shape_def shaped_def)
  note new = keeps_shapeD [OF assms(1) p(1) v b, of g rnd "drawn s" "interiaWeight cfg"
      "cognitiveAcceleration cfg" "socialAcceleration cfg"]
  from new assms(2,3) p show ?thesis
    by (simp add: update_velocity_def case_prod_beta in_shape_def)
qed

lemma update_position_shape:
  assumes "in_shape r c n s"
  shows "in_shape r c n (update_position s) \<and> faults (update_position s) = faults s"
  using assms
  by (simp add: in_shape_def shaped_def update_position_def cube_plus_def same_shape_def
      n_slices_def)

lemma iteration_shape_faults:
  assumes "keeps_shape upd F" and "in_shape r c n s" and "dimension cfg = n" and "1 \<le> n"
  shows "in_shape r c n (iteration upd g cfg f rnd s) \<and>
         set (faults (iteration upd g cfg f rnd s)) = set (faults s) \<union> F r c n"
proof -
  let ?s1 = "global_best (sweep g cfg f s)"
  let ?s2 = "update_velocity upd g cfg rnd ?s1"
  let ?s3 = "update_position ?s2"
  have s1: "in_shape r c n ?s1" and f1: "faults ?s1 = faults s"
    using sweep_shape [OF assms(2), of n g f] assms(3)
    by (simp_all add: sweep_def global_best_shape global_best_keeps)
  have s2: "in_shape r c n ?s2" and f2: "set (faults ?s2) = set (faults s) \<union> F r c n"
    using update_velocity_shape [OF assms(1) s1 assms(3), of g rnd] f1 by simp_all
  have s3: "in_shape r c n ?s3" and f3: "faults ?s3 = faults ?s2"
    using update_position_shape [OF s2] by simp_all
  have "currentObjective ?s3 = currentObjective (sweep g cfg f s)"
    by (simp add: step_keeps)
  with assms(3,4) have "snd (read_objective g ?s3) = []"
    by (simp add: read_objective_def sweep_objective)
  with s3 f2 f3 show ?thesis
    by (simp add: iteration_def Let_def in_shape_def)
qed

lemma initial_shape:
  "1 \<le> dimension cfg \<Longrightarrow> in_shape (n_rows x) (n_cols x) (dimension cfg) (initial_state g cfg x)"
  by (simp add: initial_state_eq in_shape_def shaped_def n_slices_def n_elem_def)

lemma swarm_at_faults:
  assumes "keeps_shape upd F" and "1 \<le> dimension cfg"
  shows "in_shape (n_rows x) (n_cols x) (dimension cfg) (swarm_at upd g cfg f rnd x n) \<and>
         set (faults (swarm_at upd g cfg f rnd x n)) =
           (if n = 0 then {} else F (n_rows x) (n_cols x) (dimension cfg))"
proof (induction n)
  case 0
  from assms(2) show ?case
    by (simp add: swarm_at_0 initial_shape, simp add: initial_state_eq)
next
  case (Suc n)
  then show ?case
    using iteration_shape_faults [OF assms(1) _ refl assms(2),
        of "n_rows x" "n_cols x" "swarm_at upd g cfg f rnd x n" g f rnd]
    by (simp add: swarm_at_Suc)
qed

lemma Optimize_faults:
  assumes "keeps_shape upd F" and "1 \<le> dimension cfg" and "1 \<le> maxIterations cfg"
  shows "set (faults (final (Optimize upd g cfg f rnd x))) =
         F (n_rows x) (n_cols x) (dimension cfg)"
proof -
  have "1 \<le> iterations (Optimize upd g cfg f rnd x)"
  proof (cases "fst (read_objective g (iteration upd g cfg f rnd (initial_state g cfg x)))
      < tolerance cfg")
    case True
    with assms(3) show ?thesis
      by (simp add: Optimize_def Optimize_loop_return)
  next
    case False
    with assms(3) show ?thesis
      using Optimize_loop_final [of upd g cfg f rnd "Suc 0"
          "iteration upd g cfg f rnd (initial_state g cfg x)"]
      by (simp add: Optimize_def Optimize_loop_continue)
  qed
  then show ?thesis
    using swarm_at_faults [OF assms(1,2), of x g f rnd "iterations (Optimize upd g cfg f rnd x)"]
    by (simp add: Optimize_final)
qed

subsection \<open>The storage of the swarm\<close>

lemma wf_cube_slice:
  "wf_cube c \<Longrightarrow> i < n_slices c \<Longrightarrow> length (mem (fst (slice g c i))) = c_rows c * c_cols c"
  by (simp add: wf_cube_def slice_def n_slices_def)

lemma Update_rhs_length:
  assumes "wf_cube p" and "wf_cube v" and "i < n_slices p" and "i < n_slices v"
    and "c_rows v = c_rows p" and "c_cols v = c_cols p"
    and "length (mem r1) = c_rows p * c_cols p" and "length (mem r2) = c_rows p * c_cols p"
  shows "length (mem (fst (Update_rhs g r1 r2 p v pb gb w c1 c2 i))) = c_rows p * c_cols p"
  using assms wf_cube_slice [of p i g] wf_cube_slice [of v i g]
  by (simp add: Update_rhs_value mat_plus_def schur_def scalar_times_def scalar_minus_def)

lemma InertiaWeight_keeps_storage: "keeps_storage InertiaWeight_Update"
  unfolding keeps_storage_def
proof (intro allI impI)
  fix g rnd d p v pb gb w c1 c2 n
  assume a: "wf_cube p \<and> wf_cube v \<and> n_slices p = n \<and>
    shaped (c_rows p) (c_cols p) n (v, 0, [])"
  then have v: "n_slices v = n" "c_rows v = c_rows p" "c_cols v = c_cols p"
    by (simp_all add: shaped_def)
  let ?r1 = "fst (randu rnd d (c_rows p) (c_cols p))"
  let ?r2 = "fst (randu rnd (d + c_rows p * c_cols p) (c_rows p) (c_cols p))"
  have "length (mem (fst (Update_rhs g ?r1 ?r2 p v pb gb w c1 c2 i))) = c_rows p * c_cols p"
    if "i < n" for i
    using a v that by (intro Update_rhs_length) (simp_all add: randu_def)
  moreover have "length (slices v ! i) = c_rows p * c_cols p" if "i < n_slices v" for i
    using a v that by (simp add: wf_cube_def n_slices_def)
  ultimately show "wf_cube (fst (InertiaWeight_Update g rnd d p v pb gb w c1 c2 n))"
    using v by (auto simp: InertiaWeight_Update_eq wf_cube_def)
qed

lemma set_elem_wf: "wf_cube v \<Longrightarrow> wf_cube (fst (set_elem v i k y))"
  by (auto simp: wf_cube_def set_elem_def n_slices_def set_conv_nth nth_list_update)

lemma Update_element_wf:
  "wf_cube (fst acc) \<Longrightarrow> wf_cube (fst (Update_element g rnd p pb gb w c1 c2 i k acc))"
  by (simp add: Update_element_def case_prod_beta Let_def set_elem_wf)

lemma Update_row_wf:
  "wf_cube (fst acc) \<Longrightarrow> wf_cube (fst (Update_row g rnd p pb gb w c1 c2 i j acc))"
  unfolding Update_row_eq
  by (rule fold_invariant [where P = "\<lambda>acc. wf_cube (fst acc)"])
    (simp_all add: Update_element_wf)

lemma Update_particle_mlpack_wf:
  "wf_cube (fst acc) \<Longrightarrow>
   wf_cube (fst (Update_particle_mlpack g rnd p pb gb w c1 c2 i acc))"
  unfolding Update_particle_mlpack_eq
  by (rule fold_invariant [where P = "\<lambda>acc. wf_cube (fst acc)"])
    (simp_all add: Update_row_wf)

lemma InertiaWeight_mlpack_keeps_storage: "keeps_storage InertiaWeight_Update_mlpack"
  unfolding keeps_storage_def InertiaWeight_Update_mlpack_def
  by (intro allI impI fold_invariant [where P = "\<lambda>acc. wf_cube (fst acc)"])
    (simp_all add: Update_particle_mlpack_wf)

lemma cube_plus_wf:
  assumes "wf_cube a" and "wf_cube b"
  shows "wf_cube (fst (cube_plus a b))"
proof (cases "same_shape a b")
  case True
  have "length zs = c_rows a * c_cols a"
    if "zs \<in> set (map2 (map2 (\<lambda>x y. x + y)) (slices a) (slices b))" for zs
  proof -
    from that obtain xs ys where "zs = map2 (\<lambda>x y. x + y) xs ys"
      and "xs \<in> set (slices a)" and "ys \<in> set (slices b)"
      by (auto dest: set_zip_leftD set_zip_rightD)
    with assms True show ?thesis
      by (simp add: wf_cube_def same_shape_def)
  qed
  with True show ?thesis
    by (simp add: cube_plus_def wf_cube_def)
next
  case False
  with assms(1) show ?thesis
    by (simp add: cube_plus_def)
qed

lemma iteration_stored:
  assumes "keeps_storage upd" and "stored s"
    and "in_shape r c (dimension cfg) s"
  shows "stored (iteration upd g cfg f rnd s)"
proof -
  let ?s1 = "global_best (sweep g cfg f s)"
  have p: "particlePosition ?s1 = particlePosition s"
    and v: "particleVelocity ?s1 = particleVelocity s"
    by (simp_all add: step_keeps)
  from assms(3) have shape: "n_slices (particlePosition s) = dimension cfg"
      "shaped (c_rows (particlePosition s)) (c_cols (particlePosition s)) (dimension cfg)
        (particleVelocity s, 0, [])"
    by (simp_all add: in_shape_def shaped_def)
  have "wf_cube (fst (upd g rnd (drawn ?s1) (particlePosition s) (particleVelocity s)
      (bestParticlePosition ?s1) (bestSwarmPosition ?s1) (interiaWeight cfg)
      (cognitiveAcceleration cfg) (socialAcceleration cfg) (dimension cfg)))"
    using assms(1,2) shape unfolding keeps_storage_def stored_def by blast
  then have new: "wf_cube (particleVelocity (update_velocity upd g cfg rnd ?s1))"
    by (simp add: update_velocity_def case_prod_beta p v)
  have "particlePosition (update_velocity upd g cfg rnd ?s1) = particlePosition s"
    by (simp add: step_keeps)
  with new assms(2) show ?thesis
    by (simp add: stored_def iteration_def Let_def update_position_value step_keeps
        cube_plus_wf)
qed

lemma initial_stored: "wf_mat x \<Longrightarrow> stored (initial_state g cfg x)"
  by (simp add: stored_def initial_state_eq wf_cube_def wf_mat_def)

lemma swarm_at_stored:
  assumes "keeps_storage upd" and "keeps_shape upd F" and "wf_mat x" and "1 \<le> dimension cfg"
  shows "stored (swarm_at upd g cfg f rnd x n)"
proof (induction n)
  case 0
  from assms(3) show ?case
    by (simp add: swarm_at_0 initial_stored)
next
  case (Suc n)
  moreover have "in_shape (n_rows x) (n_cols x) (dimension cfg) (swarm_at upd g cfg f rnd x n)"
    using swarm_at_faults [OF assms(2,4)] by blast
  ultimately show ?case
    using assms(1) by (simp add: swarm_at_Suc iteration_stored)
qed

subsection \<open>Runs on the concrete inputs\<close>

lemmas model_defs = init_particle_def set_size_def set_slice_def slice_def
  n_slices_def n_elem_def elem_def iteration_def sweep_def evaluate_particle_def global_best_def
  update_velocity_def update_position_def read_objective_def InertiaWeight_Update_def
  Update_particle_def Update_rhs_def
  randu_def cube_plus_def same_shape_def scalar_times_def scalar_minus_def schur_def mat_plus_def

lemma DBL_MAX_large: "x \<le> 1000 \<Longrightarrow> x < DBL_MAX"
  by (simp add: DBL_MAX_def)

lemma two_rounds_start:
  "initial_state g0 cfg_two_rounds x1 = one_particle 1 1 None DBL_MAX 0 []"
  by (simp add: initial_state_eq one_particle_def cfg_two_rounds_def x1_def)

lemma two_rounds_first:
  "iteration InertiaWeight_Update g0 cfg_two_rounds shifted_sphere half_draws
     (one_particle 1 1 None DBL_MAX 0 []) = one_particle 2 1 (Some 4) 4 2 [4]"
  by (simp add: model_defs one_particle_def cfg_two_rounds_def x1_def g0_def
      shifted_sphere_def half_draws_def DBL_MAX_large)

lemma two_rounds_second:
  "iteration InertiaWeight_Update g0 cfg_two_rounds shifted_sphere half_draws
     (one_particle 2 1 (Some 4) 4 2 [4]) = one_particle 3 2 (Some 1) 1 4 [4, 1]"
  by (simp add: model_defs one_particle_def cfg_two_rounds_def x1_def g0_def
      shifted_sphere_def half_draws_def)

lemma two_rounds_outcome:
  "Optimize InertiaWeight_Update g0 cfg_two_rounds shifted_sphere half_draws x1 =
     \<lparr>returned = 1, iterations = 2, final = one_particle 3 2 (Some 1) 1 4 [4, 1]\<rparr>"
proof -
  let ?loop = "Optimize_loop InertiaWeight_Update g0 cfg_two_rounds shifted_sphere half_draws"
  let ?round = "iteration InertiaWeight_Update g0 cfg_two_rounds shifted_sphere half_draws"
  let ?s0 = "one_particle 1 1 None DBL_MAX 0 []"
  let ?s1 = "one_particle 2 1 (Some 4) 4 2 [4]"
  let ?s2 = "one_particle 3 2 (Some 1) 1 4 [4, 1]"
  have "0 < maxIterations cfg_two_rounds"
    and "\<not> fst (read_objective g0 (?round ?s0)) < tolerance cfg_two_rounds"
    unfolding two_rounds_first
    by (simp_all add: read_objective_def one_particle_def cfg_two_rounds_def)
  then have "?loop 0 ?s0 = ?loop (Suc 0) (?round ?s0)"
    by (rule Optimize_loop_continue)
  moreover have "Suc 0 < maxIterations cfg_two_rounds"
    and "\<not> fst (read_objective g0 (?round ?s1)) < tolerance cfg_two_rounds"
    unfolding two_rounds_second
    by (simp_all add: read_objective_def one_particle_def cfg_two_rounds_def)
  then have "?loop (Suc 0) ?s1 = ?loop (Suc (Suc 0)) (?round ?s1)"
    by (rule Optimize_loop_continue)
  moreover have "\<not> Suc (Suc 0) < maxIterations cfg_two_rounds"
    by (simp add: cfg_two_rounds_def)
  then have "?loop (Suc (Suc 0)) ?s2 =
      \<lparr>returned = lastObjectiveGlobal ?s2, iterations = Suc (Suc 0), final = ?s2\<rparr>"
    by (rule Optimize_loop_done)
  moreover have "lastObjectiveGlobal ?s2 = 1"
    by (simp add: one_particle_def)
  ultimately show ?thesis
    by (simp add: Optimize_def two_rounds_start two_rounds_first two_rounds_second)
qed

lemma two_rounds_swarm:
  "swarm_at InertiaWeight_Update g0 cfg_two_rounds shifted_sphere half_draws x1 0 =
     one_particle 1 1 None DBL_MAX 0 []"
  "swarm_at InertiaWeight_Update g0 cfg_two_rounds shifted_sphere half_draws x1 (Suc 0) =
     one_particle 2 1 (Some 4) 4 2 [4]"
  "swarm_at InertiaWeight_Update g0 cfg_two_rounds shifted_sphere half_draws x1 (Suc (Suc 0)) =
     one_particle 3 2 (Some 1) 1 4 [4, 1]"
  by (simp_all only: swarm_at_0 swarm_at_Suc two_rounds_start two_rounds_first two_rounds_second)

lemma two_rounds_swarm_2:
  "swarm_at InertiaWeight_Update g0 cfg_two_rounds shifted_sphere half_draws x1 2 =
     one_particle 3 2 (Some 1) 1 4 [4, 1]"
proof -
  have "(2::nat) = Suc (Suc 0)"
    by simp
  then have "swarm_at InertiaWeight_Update g0 cfg_two_rounds shifted_sphere half_draws x1 2 =
      swarm_at InertiaWeight_Update g0 cfg_two_rounds shifted_sphere half_draws x1 (Suc (Suc 0))"
    by (rule arg_cong)
  then show ?thesis
    by (simp only: two_rounds_swarm)
qed

lemma two_rounds_best:
  "global_best (sweep g0 cfg_two_rounds shifted_sphere (one_particle 2 1 (Some 4) 4 2 [4])) =
     one_particle 2 2 (Some 1) 1 2 [4, 1]"
  by (simp add: global_best_def sweep_def evaluate_particle_def slice_def n_slices_def
      one_particle_def cfg_two_rounds_def shifted_sphere_def)

lemma no_particles_outcome:
  "Optimize InertiaWeight_Update g0 cfg_no_particles shifted_sphere half_draws x1 =
     \<lparr>returned = 0, iterations = 1,
      final =
        \<lparr>iterate = x1,
         particlePosition = \<lparr>c_rows = 1, c_cols = 1, slices = []\<rparr>,
         particleVelocity = \<lparr>c_rows = 1, c_cols = 1, slices = []\<rparr>,
         bestParticlePosition = \<lparr>n_rows = 1, n_cols = 1, mem = []\<rparr>,
         bestSwarmPosition = \<lparr>n_rows = 1, n_cols = 1, mem = []\<rparr>,
         currentObjective = None, lastObjectiveIndividual = DBL_MAX,
         lastObjectiveGlobal = DBL_MAX, drawn = 2, evaluated = [],
         faults = [SliceOutOfBounds 0, SliceOutOfBounds 0, UninitializedRead]\<rparr>\<rparr>"
proof -
  let ?s0 = "initial_state g0 cfg_no_particles x1"
  let ?round = "iteration InertiaWeight_Update g0 cfg_no_particles shifted_sphere half_draws"
  have s0: "?s0 =
      \<lparr>iterate = x1,
       particlePosition = \<lparr>c_rows = 1, c_cols = 1, slices = []\<rparr>,
       particleVelocity = \<lparr>c_rows = 1, c_cols = 1, slices = []\<rparr>,
       bestParticlePosition = \<lparr>n_rows = 1, n_cols = 1, mem = []\<rparr>,
       bestSwarmPosition = \<lparr>n_rows = 1, n_cols = 1, mem = []\<rparr>,
       currentObjective = None, lastObjectiveIndividual = DBL_MAX,
       lastObjectiveGlobal = DBL_MAX, drawn = 0, evaluated = [], faults =
         [SliceOutOfBounds 0, SliceOutOfBounds 0]\<rparr>"
    by (simp add: initial_state_eq cfg_no_particles_def x1_def g0_def)
  have s1: "?round ?s0 =
      \<lparr>iterate = x1,
       particlePosition = \<lparr>c_rows = 1, c_cols = 1, slices = []\<rparr>,
       particleVelocity = \<lparr>c_rows = 1, c_cols = 1, slices = []\<rparr>,
       bestParticlePosition = \<lparr>n_rows = 1, n_cols = 1, mem = []\<rparr>,
       bestSwarmPosition = \<lparr>n_rows = 1, n_cols = 1, mem = []\<rparr>,
       currentObjective = None, lastObjectiveIndividual = DBL_MAX,
       lastObjectiveGlobal = DBL_MAX, drawn = 2, evaluated = [], faults =
         [SliceOutOfBounds 0, SliceOutOfBounds 0, UninitializedRead]\<rparr>"
    unfolding s0 by (simp add: model_defs cfg_no_particles_def)
  have "0 < maxIterations cfg_no_particles"
    and "fst (read_objective g0 (?round ?s0)) < tolerance cfg_no_particles"
    unfolding s1 by (simp_all add: read_objective_def cfg_no_particles_def g0_def)
  then have "Optimize_loop InertiaWeight_Update g0 cfg_no_particles shifted_sphere half_draws 0 ?s0 =
      \<lparr>returned = fst (read_objective g0 (?round ?s0)), iterations = Suc 0, final = ?round ?s0\<rparr>"
    by (rule Optimize_loop_return)
  then show ?thesis
    unfolding Optimize_def s1 by (simp add: read_objective_def g0_def)
qed

lemma Update_swarm12:
  "InertiaWeight_Update g0 half_draws 0 swarm12 swarm12 x12 x12 (9 / 10) (1 / 2) (3 / 10) 1 =
     (\<lparr>c_rows = 1, c_cols = 2, slices = [[9 / 10, 7 / 5]]\<rparr>, 4, [])"
  by (simp add: InertiaWeight_Update_def Update_particle_def Update_rhs_def randu_def
      slice_def elem_def set_slice_def n_slices_def n_elem_def scalar_times_def
      scalar_minus_def schur_def mat_plus_def swarm12_def x12_def half_draws_def)

lemma Update_swarm111:
  "InertiaWeight_Update g0 half_draws 0 swarm111 swarm111 x1 x1 (9 / 10) (1 / 2) (3 / 10) 3 =
     (\<lparr>c_rows = 1, c_cols = 1, slices = [[9 / 10], [1 / 2], [1 / 2]]\<rparr>, 2,
      [ElemOutOfBounds 1, ElemOutOfBounds 1, ElemOutOfBounds 2, ElemOutOfBounds 2])"
  by (simp add: InertiaWeight_Update_def Update_particle_def Update_rhs_def randu_def
      slice_def elem_def set_slice_def n_slices_def n_elem_def scalar_times_def
      scalar_minus_def schur_def mat_plus_def swarm111_def x1_def half_draws_def g0_def
      numeral_3_eq_3)

lemma Update_mlpack_swarm12:
  "InertiaWeight_Update_mlpack g0 half_draws 0 swarm12 swarm12 x12 x12 (9 / 10) (1 / 2) (3 / 10) 1 =
     (\<lparr>c_rows = 1, c_cols = 2, slices = [[9 / 10, 7 / 5]]\<rparr>, 4, [])"
  by (simp add: InertiaWeight_Update_mlpack_def Update_particle_mlpack_def Update_row_def
      Update_element_def set_elem_def slice_def elem_def n_slices_def n_elem_def
      swarm12_def x12_def half_draws_def numeral_2_eq_2)

lemma Update_mlpack_swarm111:
  "InertiaWeight_Update_mlpack g0 half_draws 0 swarm111 swarm111 x1 x1 (9 / 10) (1 / 2) (3 / 10) 3 =
     (\<lparr>c_rows = 1, c_cols = 1, slices = [[9 / 10], [1 / 2], [1 / 2]]\<rparr>, 6,
      [ElemOutOfBounds 1, ElemOutOfBounds 1, ElemOutOfBounds 2, ElemOutOfBounds 2])"
  by (simp add: InertiaWeight_Update_mlpack_def Update_particle_mlpack_def Update_row_def
      Update_element_def set_elem_def slice_def elem_def n_slices_def n_elem_def
      swarm111_def x1_def half_draws_def g0_def numeral_3_eq_3)

section \<open>The claims\<close>

text \<open>
  C1. The claim: when \<open>Optimize\<close> returns, the starting point that was passed by
  reference holds the best position found. The code never assigns to \<open>iterate\<close>: after
  every call it is what the caller passed. With one particle starting at 1 with
  velocity 1, inertia weight 1 and both accelerations 0, the particle is at 1 in the
  first round and at 2 in the second; the objective, the squared distance from 3, is 4
  and then 1. After the two rounds the call returns 1, the best swarm position is 2, and
  \<open>iterate\<close> is still 1, where the objective is 4.
\<close>

theorem starting_point_left_unchanged:
  "iterate (final (Optimize upd g cfg f rnd x)) = x \<and>
   iterate (final (Optimize InertiaWeight_Update g0 cfg_two_rounds shifted_sphere half_draws x1)) = x1 \<and>
   bestSwarmPosition (final (Optimize InertiaWeight_Update g0 cfg_two_rounds shifted_sphere half_draws x1)) =
     \<lparr>n_rows = 1, n_cols = 1, mem = [2]\<rparr> \<and>
   returned (Optimize InertiaWeight_Update g0 cfg_two_rounds shifted_sphere half_draws x1) = 1 \<and>
   shifted_sphere \<lparr>n_rows = 1, n_cols = 1, mem = [2]\<rparr> = 1 \<and>
   shifted_sphere x1 = 4"
proof -
  have "iterate (final (Optimize upd g cfg f rnd x)) = x"
    by (rule Optimize_iterate)
  then show ?thesis
    unfolding two_rounds_outcome
    by (simp add: one_particle_def shifted_sphere_def x1_def)
qed

text \<open>
  C2. The claim: with \<open>maxIterations = 0\<close> the outer loop has no limit. The condition of
  the loop is \<open>i < maxIterations\<close>, false at once: for every configuration with
  \<open>maxIterations = 0\<close> no round is started, no objective is evaluated, and the call
  returns the initial value \<open>DBL_MAX\<close> of the global best.
\<close>

theorem no_round_when_maxIterations_is_zero:
  "iterations (Optimize upd g (cfg\<lparr>maxIterations := 0\<rparr>) f rnd x) = 0 \<and>
   returned (Optimize upd g (cfg\<lparr>maxIterations := 0\<rparr>) f rnd x) = DBL_MAX \<and>
   evaluated (final (Optimize upd g (cfg\<lparr>maxIterations := 0\<rparr>) f rnd x)) = [] \<and>
   maxIterations cfg_no_rounds = 0 \<and>
   iterations (Optimize InertiaWeight_Update g0 cfg_no_rounds shifted_sphere half_draws x1) = 0 \<and>
   returned (Optimize InertiaWeight_Update g0 cfg_no_rounds shifted_sphere half_draws x1) = DBL_MAX \<and>
   evaluated (final (Optimize InertiaWeight_Update g0 cfg_no_rounds shifted_sphere half_draws x1)) = []"
  by (simp add: Optimize_def Optimize_loop_done cfg_no_rounds_def initial_state_eq)

text \<open>
  C3. The claim has the two best positions enter the update as whole matrices, and the
  formula in the comment above \<open>Update\<close> subtracts the position from the best position.
  The code subtracts the position from \<open>bestParticlePosition[i]\<close> and
  \<open>bestSwarmPosition[i]\<close>, one element each, taken at the index of the particle. In the
  first round of a swarm of one particle at (1, 2), with both best positions (1, 2),
  \<open>\<omega> = 0.9\<close>, \<open>c1 = 0.5\<close>, \<open>c2 = 0.3\<close> and every draw one half, both versions of the code
  give the velocity (0.9, 1.4), the formula of the specification (0.9, 1.8). The two
  random matrices are drawn once per call in the version of namespace ens, as the claim
  says; the version of namespace mlpack draws two numbers for every assignment, six for
  three particles of one element where the version of namespace ens draws two.
\<close>

theorem Update_subtracts_one_element_of_best:
  "InertiaWeight_Update g0 half_draws 0 swarm12 swarm12 x12 x12 (9 / 10) (1 / 2) (3 / 10) 1 =
     (\<lparr>c_rows = 1, c_cols = 2, slices = [[9 / 10, 7 / 5]]\<rparr>, 4, []) \<and>
   InertiaWeight_Update_mlpack g0 half_draws 0 swarm12 swarm12 x12 x12
     (9 / 10) (1 / 2) (3 / 10) 1 =
     (\<lparr>c_rows = 1, c_cols = 2, slices = [[9 / 10, 7 / 5]]\<rparr>, 4, []) \<and>
   spec_velocity (fst (randu half_draws 0 1 2)) (fst (randu half_draws 2 1 2))
     (fst (slice g0 swarm12 0)) (fst (slice g0 swarm12 0)) x12 x12 (9 / 10) (1 / 2) (3 / 10) =
     \<lparr>n_rows = 1, n_cols = 2, mem = [9 / 10, 9 / 5]\<rparr> \<and>
   fst (snd (InertiaWeight_Update g0 half_draws 0 swarm111 swarm111 x1 x1
     (9 / 10) (1 / 2) (3 / 10) 3)) = 2 \<and>
   fst (snd (InertiaWeight_Update_mlpack g0 half_draws 0 swarm111 swarm111 x1 x1
     (9 / 10) (1 / 2) (3 / 10) 3)) = 6"
  unfolding Update_swarm12 Update_mlpack_swarm12 Update_swarm111 Update_mlpack_swarm111
  by (simp add: spec_velocity_def randu_def slice_def n_slices_def scalar_times_def
      mat_minus_def schur_def mat_plus_def swarm12_def x12_def half_draws_def)

text \<open>
  C4. When the objective is below the tolerance at the starting point, which is where the
  first particle is evaluated for the first time (and where every other particle of the
  first round is), \<open>Optimize\<close> returns that value after a single round of the outer
  loop, whatever the number of particles (at least one) and whatever the velocity
  policy. A first round exists when \<open>maxIterations\<close> is at least 1.
\<close>

theorem first_evaluation_below_tolerance:
  assumes "1 \<le> dimension cfg" and "1 \<le> maxIterations cfg" and "f x < tolerance cfg"
  shows "returned (Optimize upd g cfg f rnd x) = f x \<and>
         iterations (Optimize upd g cfg f rnd x) = 1"
proof -
  let ?s = "initial_state g cfg x"
  have "read_objective g (iteration upd g cfg f rnd ?s) = (f x, [])"
    using assms(1) by (simp add: read_objective_iteration slice_initial)
  with assms show ?thesis
    by (simp add: Optimize_def Optimize_loop_return)
qed

theorem first_evaluation_below_tolerance_witness:
  "1 \<le> dimension cfg_loose \<and> 1 \<le> maxIterations cfg_loose \<and>
   shifted_sphere x1 < tolerance cfg_loose \<and>
   returned (Optimize InertiaWeight_Update g0 cfg_loose shifted_sphere half_draws x1) = 4 \<and>
   iterations (Optimize InertiaWeight_Update g0 cfg_loose shifted_sphere half_draws x1) = 1"
  using first_evaluation_below_tolerance
    [of cfg_loose shifted_sphere x1 InertiaWeight_Update g0 half_draws]
  by (simp add: cfg_loose_def shifted_sphere_def x1_def)

text \<open>
  C5. With at least one particle, the value that a round compares with the tolerance is
  the last value evaluated in that round, the objective at the position that the last
  particle had at the start of the round. When the loop variable is below
  \<open>maxIterations\<close> and that value is strictly below the tolerance, the call returns it
  at the end of this round; when it is not, the loop goes on with the next round; when
  the loop variable has reached \<open>maxIterations\<close>, the call returns the global best
  objective. So a call returns either the global best objective after \<open>maxIterations\<close>
  rounds, or the last value evaluated, which is then below the tolerance.
\<close>

theorem tolerance_check_on_last_evaluated:
  assumes "1 \<le> dimension cfg"
  shows "last (evaluated (iteration upd g cfg f rnd s)) =
           f (fst (slice g (particlePosition s) (dimension cfg - 1))) \<and>
         (i < maxIterations cfg \<and>
          last (evaluated (iteration upd g cfg f rnd s)) < tolerance cfg \<longrightarrow>
            Optimize_loop upd g cfg f rnd i s =
              \<lparr>returned = last (evaluated (iteration upd g cfg f rnd s)),
               iterations = Suc i, final = iteration upd g cfg f rnd s\<rparr>) \<and>
         (i < maxIterations cfg \<and>
          \<not> last (evaluated (iteration upd g cfg f rnd s)) < tolerance cfg \<longrightarrow>
            Optimize_loop upd g cfg f rnd i s =
              Optimize_loop upd g cfg f rnd (Suc i) (iteration upd g cfg f rnd s)) \<and>
         (\<not> i < maxIterations cfg \<longrightarrow>
            Optimize_loop upd g cfg f rnd i s =
              \<lparr>returned = lastObjectiveGlobal s, iterations = i, final = s\<rparr>) \<and>
         (iterations (Optimize upd g cfg f rnd x) = maxIterations cfg \<and>
            returned (Optimize upd g cfg f rnd x) =
              lastObjectiveGlobal (final (Optimize upd g cfg f rnd x)) \<or>
          returned (Optimize upd g cfg f rnd x) < tolerance cfg \<and>
            returned (Optimize upd g cfg f rnd x) =
              last (evaluated (final (Optimize upd g cfg f rnd x))))"
proof -
  have "fst (read_objective g (iteration upd g cfg f rnd s)) =
        last (evaluated (iteration upd g cfg f rnd s))"
    using assms by (simp add: read_objective_iteration last_evaluated)
  moreover have "iterations (Optimize upd g cfg f rnd x) = maxIterations cfg \<and>
      returned (Optimize upd g cfg f rnd x) =
        lastObjectiveGlobal (final (Optimize upd g cfg f rnd x)) \<or>
    returned (Optimize upd g cfg f rnd x) < tolerance cfg \<and>
      returned (Optimize upd g cfg f rnd x) =
        last (evaluated (final (Optimize upd g cfg f rnd x)))"
    using Optimize_loop_outcome [OF assms, of upd g f rnd 0 "initial_state g cfg x"]
    by (simp add: Optimize_def)
  ultimately show ?thesis
    using assms Optimize_loop_return [of i cfg g upd f rnd s]
      Optimize_loop_continue [of i cfg g upd f rnd s]
    by (simp add: last_evaluated Optimize_loop_done)
qed

theorem tolerance_check_on_last_evaluated_witness:
  "1 \<le> dimension cfg_loose \<and> 0 < maxIterations cfg_loose \<and>
   last (evaluated (iteration InertiaWeight_Update g0 cfg_loose shifted_sphere half_draws
     (initial_state g0 cfg_loose x1))) = 4 \<and>
   4 < tolerance cfg_loose \<and>
   returned (Optimize_loop InertiaWeight_Update g0 cfg_loose shifted_sphere half_draws 0
     (initial_state g0 cfg_loose x1)) = 4 \<and>
   iterations (Optimize_loop InertiaWeight_Update g0 cfg_loose shifted_sphere half_draws 0
     (initial_state g0 cfg_loose x1)) = 1"
proof -
  have "shifted_sphere x1 = 4"
    by (simp add: shifted_sphere_def x1_def)
  moreover have "slice g0 (particlePosition (initial_state g0 cfg_loose x1))
      (dimension cfg_loose - 1) = (x1, [])"
    by (rule slice_initial) (simp add: cfg_loose_def)
  moreover have "1 \<le> dimension cfg_loose" and "0 < maxIterations cfg_loose"
    and "4 < tolerance cfg_loose" 
    by (simp_all add: cfg_loose_def)
  ultimately show ?thesis
    using tolerance_check_on_last_evaluated
      [where cfg = cfg_loose and upd = InertiaWeight_Update and g = g0
         and f = shifted_sphere and rnd = half_draws
         and s = "initial_state g0 cfg_loose x1" and i = 0 and x = x1]
    by simp
qed

text \<open>
  C6. A call ends in the state that as many rounds as it started lead to. From the start
  of one round to the start of the next the global best objective does not increase,
  and after the global-best update of a round it is at most every objective value
  evaluated since the call began.
\<close>

theorem global_best_never_increases:
  "final (Optimize upd g cfg f rnd x) =
     swarm_at upd g cfg f rnd x (iterations (Optimize upd g cfg f rnd x)) \<and>
   lastObjectiveGlobal (swarm_at upd g cfg f rnd x (Suc n))
     \<le> lastObjectiveGlobal (swarm_at upd g cfg f rnd x n) \<and>
   (\<forall>y \<in> set (evaluated (global_best (sweep g cfg f (swarm_at upd g cfg f rnd x n)))).
      lastObjectiveGlobal (global_best (sweep g cfg f (swarm_at upd g cfg f rnd x n))) \<le> y)"
proof -
  let ?s = "swarm_at upd g cfg f rnd x n"
  have "lastObjectiveGlobal (swarm_at upd g cfg f rnd x (Suc n)) \<le> lastObjectiveGlobal ?s"
    using global_best_le(1) [of "sweep g cfg f ?s"]
    by (simp add: swarm_at_Suc iteration_fields sweep_keeps)
  moreover have "below_evaluated (sweep g cfg f ?s)"
    by (rule sweep_below) (rule swarm_at_below)
  then have "\<forall>y \<in> set (evaluated (global_best (sweep g cfg f ?s))).
      lastObjectiveGlobal (global_best (sweep g cfg f ?s)) \<le> y"
    using global_best_le(2) [of "sweep g cfg f ?s"]
    by (auto simp: below_evaluated_def global_best_keeps)
  ultimately show ?thesis
    by (simp add: Optimize_final)
qed

theorem global_best_never_increases_witness:
  "final (Optimize InertiaWeight_Update g0 cfg_two_rounds shifted_sphere half_draws x1) =
     swarm_at InertiaWeight_Update g0 cfg_two_rounds shifted_sphere half_draws x1 (Suc (Suc 0)) \<and>
   lastObjectiveGlobal
     (swarm_at InertiaWeight_Update g0 cfg_two_rounds shifted_sphere half_draws x1 (Suc (Suc 0))) = 1 \<and>
   lastObjectiveGlobal
     (swarm_at InertiaWeight_Update g0 cfg_two_rounds shifted_sphere half_draws x1 (Suc 0)) = 4 \<and>
   evaluated (global_best (sweep g0 cfg_two_rounds shifted_sphere
     (swarm_at InertiaWeight_Update g0 cfg_two_rounds shifted_sphere half_draws x1 (Suc 0)))) = [4, 1] \<and>
   lastObjectiveGlobal (global_best (sweep g0 cfg_two_rounds shifted_sphere
     (swarm_at InertiaWeight_Update g0 cfg_two_rounds shifted_sphere half_draws x1 (Suc 0)))) = 1"
proof -
  have "lastObjectiveGlobal
      (swarm_at InertiaWeight_Update g0 cfg_two_rounds shifted_sphere half_draws x1 (Suc (Suc 0)))
    \<le> lastObjectiveGlobal
      (swarm_at InertiaWeight_Update g0 cfg_two_rounds shifted_sphere half_draws x1 (Suc 0))"
    using global_best_never_increases
      [of InertiaWeight_Update g0 cfg_two_rounds shifted_sphere half_draws x1 "Suc 0"]
    by blast
  then show ?thesis
    unfolding two_rounds_swarm two_rounds_best two_rounds_outcome
    by (simp add: one_particle_def)
qed

text \<open>
  C7. With one particle, after the best-update steps of every round the individual best
  and the global best hold the same objective value and the same position.
\<close>

theorem single_particle_bests_coincide:
  assumes "dimension cfg = 1"
  shows "lastObjectiveIndividual (global_best (sweep g cfg f (swarm_at upd g cfg f rnd x n))) =
         lastObjectiveGlobal (global_best (sweep g cfg f (swarm_at upd g cfg f rnd x n))) \<and>
         bestParticlePosition (global_best (sweep g cfg f (swarm_at upd g cfg f rnd x n))) =
         bestSwarmPosition (global_best (sweep g cfg f (swarm_at upd g cfg f rnd x n)))"
proof -
  have "bests_agree (global_best (sweep g cfg f (swarm_at upd g cfg f rnd x n)))"
    by (rule global_best_agree) (rule swarm_at_agree)
  then show ?thesis
    by (simp add: bests_agree_def)
qed


theorem single_particle_bests_coincide_witness:
  "dimension cfg_two_rounds = 1 \<and>
   lastObjectiveIndividual (global_best (sweep g0 cfg_two_rounds shifted_sphere
     (swarm_at InertiaWeight_Update g0 cfg_two_rounds shifted_sphere half_draws x1 (Suc 0)))) = 1 \<and>
   lastObjectiveGlobal (global_best (sweep g0 cfg_two_rounds shifted_sphere
     (swarm_at InertiaWeight_Update g0 cfg_two_rounds shifted_sphere half_draws x1 (Suc 0)))) = 1 \<and>
   bestParticlePosition (global_best (sweep g0 cfg_two_rounds shifted_sphere
     (swarm_at InertiaWeight_Update g0 cfg_two_rounds shifted_sphere half_draws x1 (Suc 0)))) =
     \<lparr>n_rows = 1, n_cols = 1, mem = [2]\<rparr> \<and>
   bestSwarmPosition (global_best (sweep g0 cfg_two_rounds shifted_sphere
     (swarm_at InertiaWeight_Update g0 cfg_two_rounds shifted_sphere half_draws x1 (Suc 0)))) =
     \<lparr>n_rows = 1, n_cols = 1, mem = [2]\<rparr>"
  using single_particle_bests_coincide
    [of cfg_two_rounds g0 shifted_sphere InertiaWeight_Update half_draws x1 "Suc 0"]
  unfolding two_rounds_swarm two_rounds_best
  by (simp add: one_particle_def cfg_two_rounds_def)



text \<open>
  C9. For cubes of one shape with one slice per particle and best positions of the shape
  of a particle, \<open>Update\<close> of namespace ens reads out of bounds exactly at the particle
  indices from \<open>rows * cols\<close> on, so it has no fault if and only if the number of
  particles is at most \<open>rows * cols\<close>; and the new velocity of a particle \<open>i\<close> below
  \<open>rows * cols\<close> is computed from the single elements at index \<open>i\<close> of the two best
  positions. \<open>Update\<close> of namespace mlpack reads out of bounds at the same indices when a
  particle has at least one element (it reads nothing when a particle has none), and
  the new velocity of a particle \<open>i\<close> is the same for any two pairs of best positions
  that have the same elements at index \<open>i\<close>. In a call of \<open>Optimize\<close> with the policy of
  namespace ens, at least one particle and at least one round, these reads are the
  faults of the call: there is none if and only if the number of particles is at most
  \<open>rows * cols\<close> of the starting point.
\<close>

theorem Update_reads_best_at_particle_index:
  assumes "n_slices p = n" and "n_slices v = n"
    and "c_rows v = c_rows p" and "c_cols v = c_cols p"
    and "n_elem pb = c_rows p * c_cols p" and "n_elem gb = c_rows p * c_cols p"
  shows "set (snd (snd (InertiaWeight_Update g rnd d p v pb gb w c1 c2 n))) =
           ElemOutOfBounds ` {c_rows p * c_cols p ..< n} \<and>
         (snd (snd (InertiaWeight_Update g rnd d p v pb gb w c1 c2 n)) = []) =
           (n \<le> c_rows p * c_cols p) \<and>
         (\<forall>i < n. i < c_rows p * c_cols p \<longrightarrow>
            slices (fst (InertiaWeight_Update g rnd d p v pb gb w c1 c2 n)) ! i =
              mem (mat_plus
                (mat_plus (scalar_times w (fst (slice g v i)))
                   (schur (scalar_times c1 (fst (randu rnd d (c_rows p) (c_cols p))))
                      (scalar_minus (mem pb ! i) (fst (slice g p i)))))
                (schur (scalar_times c2
                    (fst (randu rnd (d + c_rows p * c_cols p) (c_rows p) (c_cols p))))
                   (scalar_minus (mem gb ! i) (fst (slice g p i)))))) \<and>
         (0 < c_rows p * c_cols p \<longrightarrow>
            set (snd (snd (InertiaWeight_Update_mlpack g rnd d p v pb gb w c1 c2 n))) =
              ElemOutOfBounds ` {c_rows p * c_cols p ..< n}) \<and>
         (\<forall>i pb' gb'.
            i < n_elem pb \<and> i < n_elem pb' \<and> mem pb' ! i = mem pb ! i \<and>
            i < n_elem gb \<and> i < n_elem gb' \<and> mem gb' ! i = mem gb ! i \<longrightarrow>
            slices (fst (InertiaWeight_Update_mlpack g rnd d p v pb gb w c1 c2 n)) ! i =
            slices (fst (InertiaWeight_Update_mlpack g rnd d p v pb' gb' w c1 c2 n)) ! i) \<and>
         (1 \<le> dimension cfg \<and> 1 \<le> maxIterations cfg \<longrightarrow>
            set (faults (final (Optimize InertiaWeight_Update g cfg f rnd x))) =
              ElemOutOfBounds ` {n_rows x * n_cols x ..< dimension cfg} \<and>
            (faults (final (Optimize InertiaWeight_Update g cfg f rnd x)) = []) =
              (dimension cfg \<le> n_rows x * n_cols x))"
proof -
  let ?e = "snd (snd (InertiaWeight_Update g rnd d p v pb gb w c1 c2 n))"
  have e: "set ?e = ElemOutOfBounds ` {c_rows p * c_cols p ..< n}"
    unfolding Update_faults [OF assms(1,2,5,6)] by auto
  have "(?e = []) = (set ?e = {})"
    by simp
  also have "\<dots> = (n \<le> c_rows p * c_cols p)"
    unfolding e by (simp add: not_less)
  finally have none: "(?e = []) = (n \<le> c_rows p * c_cols p)" .
  have ens: "slices (fst (InertiaWeight_Update g rnd d p v pb gb w c1 c2 n)) ! i =
      mem (mat_plus
        (mat_plus (scalar_times w (fst (slice g v i)))
           (schur (scalar_times c1 (fst (randu rnd d (c_rows p) (c_cols p))))
              (scalar_minus (mem pb ! i) (fst (slice g p i)))))
        (schur (scalar_times c2
            (fst (randu rnd (d + c_rows p * c_cols p) (c_rows p) (c_cols p))))
           (scalar_minus (mem gb ! i) (fst (slice g p i)))))"
    if "i < n" and "i < c_rows p * c_cols p" for i
    using that assms
    by (simp add: InertiaWeight_Update_eq Update_rhs_value elem_in)
  have mlpack: "set (snd (snd (InertiaWeight_Update_mlpack g rnd d p v pb gb w c1 c2 n))) =
      ElemOutOfBounds ` {c_rows p * c_cols p ..< n}" if "0 < c_rows p * c_cols p"
    using that
    by (simp add: InertiaWeight_Update_mlpack_faults [OF assms(1,2,3,4)]
        best_reads_same_shape [OF assms(5,6)])
  have own: "slices (fst (InertiaWeight_Update_mlpack g rnd d p v pb gb w c1 c2 n)) ! i =
      slices (fst (InertiaWeight_Update_mlpack g rnd d p v pb' gb' w c1 c2 n)) ! i"
    if "i < n_elem pb" and "i < n_elem pb'" and "mem pb' ! i = mem pb ! i"
      and "i < n_elem gb" and "i < n_elem gb'" and "mem gb' ! i = mem gb ! i"
    for i pb' gb'
    using that by (intro InertiaWeight_Update_mlpack_own_element) (simp_all add: elem_in)
  show ?thesis
  proof (intro conjI)
    show "set ?e = ElemOutOfBounds ` {c_rows p * c_cols p ..< n}"
      by (rule e)
    show "(?e = []) = (n \<le> c_rows p * c_cols p)"
      by (rule none)
    show "\<forall>i < n. i < c_rows p * c_cols p \<longrightarrow>
        slices (fst (InertiaWeight_Update g rnd d p v pb gb w c1 c2 n)) ! i =
          mem (mat_plus
            (mat_plus (scalar_times w (fst (slice g v i)))
               (schur (scalar_times c1 (fst (randu rnd d (c_rows p) (c_cols p))))
                  (scalar_minus (mem pb ! i) (fst (slice g p i)))))
            (schur (scalar_times c2
                (fst (randu rnd (d + c_rows p * c_cols p) (c_rows p) (c_cols p))))
               (scalar_minus (mem gb ! i) (fst (slice g p i)))))"
      by (intro allI impI) (rule ens)
    show "0 < c_rows p * c_cols p \<longrightarrow>
        set (snd (snd (InertiaWeight_Update_mlpack g rnd d p v pb gb w c1 c2 n))) =
          ElemOutOfBounds ` {c_rows p * c_cols p ..< n}"
      by (intro impI) (rule mlpack)
    show "\<forall>i pb' gb'.
        i < n_elem pb \<and> i < n_elem pb' \<and> mem pb' ! i = mem pb ! i \<and>
        i < n_elem gb \<and> i < n_elem gb' \<and> mem gb' ! i = mem gb ! i \<longrightarrow>
        slices (fst (InertiaWeight_Update_mlpack g rnd d p v pb gb w c1 c2 n)) ! i =
        slices (fst (InertiaWeight_Update_mlpack g rnd d p v pb' gb' w c1 c2 n)) ! i"
      by (intro allI impI, elim conjE) (rule own)
    show "1 \<le> dimension cfg \<and> 1 \<le> maxIterations cfg \<longrightarrow>
        set (faults (final (Optimize InertiaWeight_Update g cfg f rnd x))) =
          ElemOutOfBounds ` {n_rows x * n_cols x ..< dimension cfg} \<and>
        (faults (final (Optimize InertiaWeight_Update g cfg f rnd x)) = []) =
          (dimension cfg \<le> n_rows x * n_cols x)"
    proof (intro impI, elim conjE)
      assume "1 \<le> dimension cfg" and "1 \<le> maxIterations cfg"
      then have call: "set (faults (final (Optimize InertiaWeight_Update g cfg f rnd x))) =
          ElemOutOfBounds ` {n_rows x * n_cols x ..< dimension cfg}"
        by (rule Optimize_faults [OF InertiaWeight_keeps_shape])
      have "(faults (final (Optimize InertiaWeight_Update g cfg f rnd x)) = []) =
          (set (faults (final (Optimize InertiaWeight_Update g cfg f rnd x))) = {})"
        by simp
      also have "\<dots> = (dimension cfg \<le> n_rows x * n_cols x)"
        unfolding call by (simp add: not_less)
      finally show "set (faults (final (Optimize InertiaWeight_Update g cfg f rnd x))) =
          ElemOutOfBounds ` {n_rows x * n_cols x ..< dimension cfg} \<and>
        (faults (final (Optimize InertiaWeight_Update g cfg f rnd x)) = []) =
          (dimension cfg \<le> n_rows x * n_cols x)"
        using call by simp
    qed
  qed
qed

theorem Update_reads_best_at_particle_index_witness:
  "n_slices swarm12 = 1 \<and> n_elem x12 = c_rows swarm12 * c_cols swarm12 \<and>
   snd (snd (InertiaWeight_Update g0 half_draws 0 swarm12 swarm12 x12 x12
     (9 / 10) (1 / 2) (3 / 10) 1)) = [] \<and>
   slices (fst (InertiaWeight_Update g0 half_draws 0 swarm12 swarm12 x12 x12
     (9 / 10) (1 / 2) (3 / 10) 1)) ! 0 = [9 / 10, 7 / 5] \<and>
   n_slices swarm111 = 3 \<and> n_elem x1 = c_rows swarm111 * c_cols swarm111 \<and>
   set (snd (snd (InertiaWeight_Update g0 half_draws 0 swarm111 swarm111 x1 x1
     (9 / 10) (1 / 2) (3 / 10) 3))) = {ElemOutOfBounds 1, ElemOutOfBounds 2} \<and>
   set (snd (snd (InertiaWeight_Update_mlpack g0 half_draws 0 swarm111 swarm111 x1 x1
     (9 / 10) (1 / 2) (3 / 10) 3))) = {ElemOutOfBounds 1, ElemOutOfBounds 2} \<and>
   slices (fst (InertiaWeight_Update_mlpack g0 half_draws 0 swarm12 swarm12 x12 x12
     (9 / 10) (1 / 2) (3 / 10) 1)) ! 0 =
   slices (fst (InertiaWeight_Update_mlpack g0 half_draws 0 swarm12 swarm12 x17 x17
     (9 / 10) (1 / 2) (3 / 10) 1)) ! 0 \<and>
   1 \<le> dimension cfg_loose \<and> 1 \<le> maxIterations cfg_loose \<and>
   set (faults (final (Optimize InertiaWeight_Update g0 cfg_loose shifted_sphere half_draws x1))) =
     {ElemOutOfBounds 1, ElemOutOfBounds 2}"
proof -
  have a: "n_slices swarm12 = 1" "c_rows swarm12 = c_rows swarm12"
      "n_elem x12 = c_rows swarm12 * c_cols swarm12"
    and b: "n_slices swarm111 = 3" "c_rows swarm111 = c_rows swarm111"
      "n_elem x1 = c_rows swarm111 * c_cols swarm111"
    by (simp_all add: n_slices_def n_elem_def swarm12_def swarm111_def x12_def x1_def)
  note twelve = Update_reads_best_at_particle_index [OF a(1) a(1) refl refl a(3) a(3),
      where g = g0 and rnd = half_draws and d = 0 and w = "9 / 10" and ?c1.0 = "1 / 2"
        and ?c2.0 = "3 / 10"]
  note three = Update_reads_best_at_particle_index [OF b(1) b(1) refl refl b(3) b(3),
      where g = g0 and rnd = half_draws and d = 0 and w = "9 / 10" and ?c1.0 = "1 / 2"
        and ?c2.0 = "3 / 10" and cfg = cfg_loose and f = shifted_sphere and x = x1]
  have range: "{c_rows swarm111 * c_cols swarm111 ..< 3} = {1, 2}"
    and some: "0 < c_rows swarm111 * c_cols swarm111"
    by (auto simp: swarm111_def)
  have "set (snd (snd (InertiaWeight_Update g0 half_draws 0 swarm111 swarm111 x1 x1
      (9 / 10) (1 / 2) (3 / 10) 3))) = {ElemOutOfBounds 1, ElemOutOfBounds 2}"
    and "set (snd (snd (InertiaWeight_Update_mlpack g0 half_draws 0 swarm111 swarm111 x1 x1
      (9 / 10) (1 / 2) (3 / 10) 3))) = {ElemOutOfBounds 1, ElemOutOfBounds 2}"
    using three range some by simp_all
  moreover have "snd (snd (InertiaWeight_Update g0 half_draws 0 swarm12 swarm12 x12 x12
      (9 / 10) (1 / 2) (3 / 10) 1)) = []"
    using twelve by (simp add: swarm12_def)
  moreover have "0 < n_elem x12 \<and> 0 < n_elem x17 \<and> mem x17 ! 0 = mem x12 ! 0"
    by (simp add: n_elem_def x12_def x17_def)
  then have "slices (fst (InertiaWeight_Update_mlpack g0 half_draws 0 swarm12 swarm12 x12 x12
        (9 / 10) (1 / 2) (3 / 10) 1)) ! 0 =
      slices (fst (InertiaWeight_Update_mlpack g0 half_draws 0 swarm12 swarm12 x17 x17
        (9 / 10) (1 / 2) (3 / 10) 1)) ! 0"
    using twelve by blast
  moreover have loose: "1 \<le> dimension cfg_loose" "1 \<le> maxIterations cfg_loose"
    and "{n_rows x1 * n_cols x1 ..< dimension cfg_loose} = {1, 2}"
    by (auto simp: cfg_loose_def x1_def)
  then have "set (faults (final (Optimize InertiaWeight_Update g0 cfg_loose shifted_sphere
      half_draws x1))) = {ElemOutOfBounds 1, ElemOutOfBounds 2}"
    using three by simp
  ultimately show ?thesis
    using a b loose unfolding Update_swarm12 by simp
qed

text \<open>
  C10. With no particle and at least one round, initialising the best positions reads
  slice 0 of a cube without slices, and the tolerance check reads \<open>currentObjective\<close>,
  which no evaluation has assigned; both faults are in the state at the return. A call
  without fault has at least one particle.
\<close>

theorem no_particles_undefined_reads:
  "(dimension cfg = 0 \<and> 1 \<le> maxIterations cfg \<longrightarrow>
      SliceOutOfBounds 0 \<in> set (faults (initial_state g cfg x)) \<and>
      SliceOutOfBounds 0 \<in> set (faults (final (Optimize upd g cfg f rnd x))) \<and>
      UninitializedRead \<in> set (faults (final (Optimize upd g cfg f rnd x)))) \<and>
   (faults (final (Optimize upd g cfg f rnd x)) = [] \<longrightarrow> 1 \<le> dimension cfg)"
proof -
  let ?s = "initial_state g cfg x"
  have sub: "set (faults ?s) \<subseteq> set (faults (final (Optimize upd g cfg f rnd x)))"
    by (simp add: Optimize_def Optimize_loop_faults)
  have init: "dimension cfg = 0 \<Longrightarrow> SliceOutOfBounds 0 \<in> set (faults ?s)"
    by (simp add: initial_state_eq)
  have "UninitializedRead \<in> set (faults (final (Optimize upd g cfg f rnd x)))"
    if "dimension cfg = 0" and "1 \<le> maxIterations cfg"
  proof -
    have "UninitializedRead \<in> set (faults (iteration upd g cfg f rnd ?s))"
      using that(1) by (rule iteration_uninitialized) (simp add: initial_state_eq)
    moreover have "set (faults (iteration upd g cfg f rnd ?s))
        \<subseteq> set (faults (final (Optimize upd g cfg f rnd x)))"
      unfolding Optimize_def using that(2) by (intro Optimize_loop_first_round_faults) simp
    ultimately show ?thesis by blast
  qed
  moreover have "1 \<le> dimension cfg" if "faults (final (Optimize upd g cfg f rnd x)) = []"
  proof (rule ccontr)
    assume "\<not> 1 \<le> dimension cfg"
    then have "dimension cfg = 0" by simp
    with init sub that show False by auto
  qed
  ultimately show ?thesis
    using init sub by blast
qed

theorem no_particles_undefined_reads_witness:
  "dimension cfg_no_particles = 0 \<and> 1 \<le> maxIterations cfg_no_particles \<and>
   SliceOutOfBounds 0 \<in> set (faults (initial_state g0 cfg_no_particles x1)) \<and>
   faults (final (Optimize InertiaWeight_Update g0 cfg_no_particles shifted_sphere half_draws x1)) =
     [SliceOutOfBounds 0, SliceOutOfBounds 0, UninitializedRead] \<and>
   faults (final (Optimize InertiaWeight_Update g0 cfg_two_rounds shifted_sphere half_draws x1)) = [] \<and>
   1 \<le> dimension cfg_two_rounds"
  using no_particles_undefined_reads
    [of cfg_no_particles g0 x1 InertiaWeight_Update shifted_sphere half_draws]
    no_particles_undefined_reads
    [of cfg_two_rounds g0 x1 InertiaWeight_Update shifted_sphere half_draws]
  unfolding no_particles_outcome two_rounds_outcome
  by (simp add: cfg_no_particles_def one_particle_def)

end
